theory Spec2Isabelle
  imports Main "HOL-Library.Char_ord" "HOL-Library.List_Lexorder" "HOL-Library.Multiset"
begin

section \<open>Errors\<close>

text \<open>
  The exceptions of \<^verbatim>\<open>pandas/core/series.py\<close> and of the collaborators it calls, as values.
  A function that can raise returns \<open>error + 'a\<close>, with \<open>Inl\<close> the exception.
  \<open>UnrepresentableMissing\<close> is the error the specification names for a gather that would
  need a missing value in an integer buffer.
\<close>

datatype error =
    TypeError
  | ValueError
  | KeyError
  | IndexError
  | AssertionError
  | InvalidIndexError
  | UnrepresentableMissing
  | Exception

text \<open>Sequencing of calls that can raise: the first exception ends the computation.\<close>

fun and_then :: "error + 'a \<Rightarrow> ('a \<Rightarrow> error + 'b) \<Rightarrow> error + 'b" where
  "and_then (Inl e) k = Inl e"
| "and_then (Inr a) k = k a"

fun sequence :: "(error + 'a) list \<Rightarrow> error + 'a list" where
  "sequence [] = Inr []"
| "sequence (x # xs) = and_then x (\<lambda>v. and_then (sequence xs) (\<lambda>vs. Inr (v # vs)))"

section \<open>Labels\<close>

text \<open>
  Index labels are hashable Python scalars; integers and strings are the two kinds the
  indexing rules of \<^verbatim>\<open>Series._get_with\<close> tell apart. Python 2 orders every number
  before every string.
\<close>

datatype label = IntL int | StrL string

instantiation label :: linorder
begin

fun less_eq_label :: "label \<Rightarrow> label \<Rightarrow> bool" where
  "less_eq_label (IntL a) (IntL b) = (a \<le> b)"
| "less_eq_label (IntL a) (StrL t) = True"
| "less_eq_label (StrL s) (IntL b) = False"
| "less_eq_label (StrL s) (StrL t) = (s \<le> t)"

definition less_label :: "label \<Rightarrow> label \<Rightarrow> bool" where
  "less_label a b = (a \<le> b \<and> \<not> b \<le> a)"

instance
proof
  fix x y z :: label
  show "(x < y) = (x \<le> y \<and> \<not> y \<le> x)"
    by (simp add: less_label_def)
  show "x \<le> x"
    by (cases x) simp_all
  show "x \<le> y \<Longrightarrow> y \<le> z \<Longrightarrow> x \<le> z"
    by (cases x; cases y; cases z) auto
  show "x \<le> y \<Longrightarrow> y \<le> x \<Longrightarrow> x = y"
    by (cases x; cases y) auto
  show "x \<le> y \<or> y \<le> x"
    by (cases x; cases y) auto
qed

end

section \<open>Values, element kinds and arrays\<close>

text \<open>
  A cell of a value buffer is either the missing-value sentinel (\<^verbatim>\<open>nan\<close>) or a value.
  Python's \<^verbatim>\<open>None\<close> for "argument not given" is a separate thing and is modelled by
  \<open>option\<close> around the argument.
\<close>

datatype 'v cell = NaN | Val 'v

datatype kind = Floating | Integer | Boolean | Datetime | Object

text \<open>A one-dimensional \<^verbatim>\<open>numpy.ndarray\<close>: its declared element kind and its cells.\<close>

record 'v ndarray =
  dtype :: kind
  data :: "'v cell list"

text \<open>\<^verbatim>\<open>isnull(arr)\<close> and \<^verbatim>\<open>notnull(arr)\<close>: the boolean masks of the missing cells.\<close>

definition isnull :: "'v ndarray \<Rightarrow> bool list" where
  "isnull arr = map (\<lambda>c. c = NaN) (data arr)"

definition notnull :: "'v ndarray \<Rightarrow> bool list" where
  "notnull arr = map (\<lambda>c. c \<noteq> NaN) (data arr)"

text \<open>
  Modelled from the spec: \<^verbatim>\<open>com.is_integer_dtype\<close> (pandas/core/common.py is not among
  the sources). "integer-kind arrays cannot represent missing values (no sentinel
  available) -- can_hold_missing is false for that kind only."
\<close>

definition is_integer_dtype :: "kind \<Rightarrow> bool" where
  "is_integer_dtype k = (k = Integer)"

text \<open>
  Modelled from the spec: \<^verbatim>\<open>com._maybe_upcast\<close>, the implicit upcast of a buffer that is
  about to receive missing values: an integer buffer becomes a floating one.
\<close>

definition maybe_upcast :: "'v ndarray \<Rightarrow> 'v ndarray" where
  "maybe_upcast arr = (if dtype arr = Integer then arr\<lparr>dtype := Floating\<rparr> else arr)"

text \<open>\<^verbatim>\<open>np.putmask(a, mask, value)\<close> with a scalar value: writes it where the mask holds.\<close>

definition putmask :: "'v ndarray \<Rightarrow> bool list \<Rightarrow> 'v cell \<Rightarrow> 'v ndarray" where
  "putmask a msk v = a\<lparr>data := map2 (\<lambda>c m. if m then v else c) (data a) msk\<rparr>"

text \<open>
  Fancy indexing \<^verbatim>\<open>a[positions]\<close> and \<^verbatim>\<open>ndarray.take\<close> on a list: an
  out-of-range position raises \<^verbatim>\<open>IndexError\<close>.
\<close>

definition fancy :: "'a list \<Rightarrow> nat list \<Rightarrow> error + 'a list" where
  "fancy xs ps = (if \<forall>p \<in> set ps. p < length xs then Inr (map (\<lambda>p. xs ! p) ps) else Inl IndexError)"

text \<open>Boolean-mask indexing \<^verbatim>\<open>a[mask]\<close>: a mask of another length raises.\<close>

definition masked :: "'a list \<Rightarrow> bool list \<Rightarrow> error + 'a list" where
  "masked xs msk =
     (if length msk = length xs then Inr (map fst (filter snd (zip xs msk))) else Inl IndexError)"

text \<open>
  What numpy accepts between the brackets of a one-dimensional array: an array of integer
  positions (a negative one counts from the end, one out of range raises
  \<^verbatim>\<open>IndexError\<close>), a boolean mask, or a slice of positions.
\<close>

datatype indexer = IPos "int list" | IMask "bool list" | ISlice "int option" "int option"

definition py_bound :: "nat \<Rightarrow> int option \<Rightarrow> nat \<Rightarrow> nat" where
  "py_bound n b dflt =
     (case b of
        None \<Rightarrow> dflt
      | Some i \<Rightarrow> if i < 0 then nat (max 0 (int n + i)) else min n (nat i))"

text \<open>The positions an indexer selects in an array of length \<open>n\<close>.\<close>

fun resolve :: "nat \<Rightarrow> indexer \<Rightarrow> error + nat list" where
  "resolve n (IPos ps) =
     (if \<forall>i \<in> set ps. - int n \<le> i \<and> i < int n
      then Inr (map (\<lambda>i. if i < 0 then nat (int n + i) else nat i) ps)
      else Inl IndexError)"
| "resolve n (IMask m) =
     (if length m = n then Inr (filter (\<lambda>i. m ! i) [0..<n]) else Inl IndexError)"
| "resolve n (ISlice a b) = Inr [py_bound n a 0..<py_bound n b n]"

text \<open>\<^verbatim>\<open>arr[indexer]\<close> and \<^verbatim>\<open>arr[indexer] = v\<close>.\<close>

definition np_getitem :: "'a list \<Rightarrow> indexer \<Rightarrow> error + 'a list" where
  "np_getitem xs ix = and_then (resolve (length xs) ix) (\<lambda>ps. Inr (map ((!) xs) ps))"

definition np_setitem :: "'a list \<Rightarrow> indexer \<Rightarrow> 'a \<Rightarrow> error + 'a list" where
  "np_setitem xs ix v =
     and_then (resolve (length xs) ix) (\<lambda>ps. Inr (fold (\<lambda>p ys. ys[p := v]) ps xs))"

text \<open>
  An integer stored into an array of dtype \<^verbatim>\<open>int32\<close>: the assignment keeps its low 32
  bits, read in two's complement.
\<close>

definition int32 :: "int \<Rightarrow> int" where
  "int32 i = (i + 2 ^ 31) mod 2 ^ 32 - 2 ^ 31"

section \<open>The Label Index collaborator\<close>

text \<open>
  Modelled from the spec: \<^verbatim>\<open>pandas/core/index.py\<close> is not among the sources. The
  specification gives the contract the Series code relies on: content equality,
  \<^verbatim>\<open>get_position(label) -> position | NotFound\<close>,
  \<^verbatim>\<open>get_positions(labels) -> sequence of position-or-absent\<close>, and
  \<^verbatim>\<open>join(other, how) -> (joined_labels, left_positions, right_positions)\<close> where
  "outer = union sorted by label ordering rules of the Label Index, inner = intersection,
  left/right = one side's labels verbatim". An absent position (\<^verbatim>\<open>-1\<close> in the source)
  is \<open>None\<close>.
\<close>

definition equals :: "label list \<Rightarrow> label list \<Rightarrow> bool" where
  "equals la lb = (la = lb)"

fun get_loc :: "label list \<Rightarrow> label \<Rightarrow> nat option" where
  "get_loc [] l = None"
| "get_loc (x # xs) l = (if x = l then Some 0 else map_option Suc (get_loc xs l))"

definition get_indexer :: "label list \<Rightarrow> label list \<Rightarrow> nat option list" where
  "get_indexer la targets = map (get_loc la) targets"

text \<open>\<^verbatim>\<open>Index.__add__\<close>: the union of two indexes, in label order.\<close>

definition index_union :: "label list \<Rightarrow> label list \<Rightarrow> label list" where
  "index_union la lb = sort (remdups (la @ lb))"

definition index_intersection :: "label list \<Rightarrow> label list \<Rightarrow> label list" where
  "index_intersection la lb = sort (remdups (filter (\<lambda>l. l \<in> set lb) la))"

datatype how = Outer | Inner | Left | Right

text \<open>
  \<^verbatim>\<open>Index.join(other, how, return_indexers=True)\<close>. The source tests each position map
  against \<^verbatim>\<open>None\<close> before gathering through it: a map is \<^verbatim>\<open>None\<close> when the joined
  index is that side's own index, so that nothing has to move.
\<close>

definition index_join ::
  "label list \<Rightarrow> label list \<Rightarrow> how \<Rightarrow> label list \<times> nat option list option \<times> nat option list option"
where
  "index_join la lb h =
     (let j = (case h of Outer \<Rightarrow> index_union la lb
                       | Inner \<Rightarrow> index_intersection la lb
                       | Left \<Rightarrow> la
                       | Right \<Rightarrow> lb)
      in (j,
          if j = la then None else Some (get_indexer la j),
          if j = lb then None else Some (get_indexer lb j)))"

text \<open>
  \<^verbatim>\<open>Index.reindex(target)\<close> with the default \<^verbatim>\<open>method=None\<close>: the target labels and
  the position of each one in the index.
\<close>

definition index_reindex :: "label list \<Rightarrow> label list \<Rightarrow> error + (label list \<times> nat option list)" where
  "index_reindex la target = Inr (target, get_indexer la target)"

text \<open>\<^verbatim>\<open>Index.insert(loc, item)\<close>: a new index with the item placed at \<open>loc\<close>.\<close>

definition index_insert :: "label list \<Rightarrow> nat \<Rightarrow> label \<Rightarrow> label list" where
  "index_insert la loc item = take loc la @ [item] @ drop loc la"

text \<open>
  Modelled from the spec: \<^verbatim>\<open>com.take_1d(values, indexer, fill_value)\<close>. "Materialize
  aligned value buffers by gathering through the position maps; absent gathers to the
  type's missing sentinel (fails with UnrepresentableMissing if the element kind cannot
  hold missing, e.g. plain integers -- caller must upcast first)."
\<close>

definition take_1d :: "'v ndarray \<Rightarrow> nat option list \<Rightarrow> 'v cell \<Rightarrow> error + 'v ndarray" where
  "take_1d arr indexer fill_value =
     (if is_integer_dtype (dtype arr) \<and> None \<in> set indexer \<and> fill_value = NaN
      then Inl UnrepresentableMissing
      else Inr (arr\<lparr>data := map (\<lambda>p. case p of None \<Rightarrow> fill_value | Some i \<Rightarrow> data arr ! i) indexer\<rparr>))"

section \<open>The Series\<close>

text \<open>
  \<^verbatim>\<open>class Series(np.ndarray, PandasObject)\<close>: a value buffer, the label index and the
  optional name.
\<close>

record 'v series =
  index :: "label list"
  "values" :: "'v ndarray"
  name :: "string option"

text \<open>\<^verbatim>\<open>len(values) == len(labels)\<close>: the invariant of a constructed Series.\<close>

definition wfs :: "'v series \<Rightarrow> bool" where
  "wfs s = (length (data (values s)) = length (index s))"

text \<open>
  \<^verbatim>\<open>Series(arr, index=idx, name=nm)\<close> on an array: \<^verbatim>\<open>__new__\<close> keeps the array
  (\<^verbatim>\<open>_sanitize_array\<close> returns an ndarray as it is) and assigns \<^verbatim>\<open>subarr.index\<close>.
  The assignment goes through the descriptor \<^verbatim>\<open>lib.SeriesIndex\<close>, which is not among
  the sources. Modelled from the spec: "Invariant: len(values) == len(labels) at all
  times; any operation producing a new Aligned Array must establish this before
  returning": the setter refuses an index of another length.
\<close>

definition Series :: "'v ndarray \<Rightarrow> label list \<Rightarrow> string option \<Rightarrow> error + 'v series" where
  "Series arr idx nm =
     (if length (data arr) \<noteq> length idx then Inl AssertionError
      else Inr \<lparr>index = idx, values = arr, name = nm\<rparr>)"

text \<open>
  \<^verbatim>\<open>Series(nan, index=idx, name=nm)\<close>: \<^verbatim>\<open>_sanitize_array\<close> broadcasts a scalar over the
  index (\<^verbatim>\<open>np.empty(len(index))\<close> then \<^verbatim>\<open>fill\<close>); \<^verbatim>\<open>nan\<close> is a float.
\<close>

definition Series_nan :: "label list \<Rightarrow> string option \<Rightarrow> 'v series" where
  "Series_nan idx nm =
     \<lparr>index = idx, values = \<lparr>dtype = Floating, data = replicate (length idx) NaN\<rparr>, name = nm\<rparr>"

text \<open>
  A method returns either the receiver itself or an object it has built. \<open>Self\<close> stands
  for the receiver (the same object, hence the same value buffer); \<open>New s\<close> for a fresh
  object. Methods that can write into the receiver return the receiver's state after the
  call beside the result.
\<close>

datatype 'v obj = Self | New "'v series"

fun deref :: "'v series \<Rightarrow> 'v obj \<Rightarrow> 'v series" where
  "deref self Self = self"
| "deref self (New s) = s"

text \<open>\<^verbatim>\<open>Series._can_hold_na\<close>.\<close>

definition can_hold_na :: "'v series \<Rightarrow> bool" where
  "can_hold_na self = (\<not> is_integer_dtype (dtype (values self)))"

text \<open>\<^verbatim>\<open>Series.copy\<close>: a new Series over a copy of the values, sharing index and name.\<close>

definition copy :: "'v series \<Rightarrow> error + 'v series" where
  "copy self = Series (values self) (index self) (name self)"

text \<open>\<^verbatim>\<open>_maybe_match_name(a, b)\<close>.\<close>

definition maybe_match_name :: "'v series \<Rightarrow> 'w series \<Rightarrow> string option" where
  "maybe_match_name a b = (if name a = name b then name a else None)"

section \<open>Filling missing values\<close>

datatype fill_method = Pad | FFill | Backfill | BFill

text \<open>
  Modelled from the spec: \<^verbatim>\<open>com.pad_1d\<close> and \<^verbatim>\<open>com.backfill_1d\<close>. "method-fill
  (pad/backfill) must respect limit as a maximum consecutive run length and leave unfilled
  gaps exceeding that run as still-missing." \<open>pad_run prev n lim xs\<close> carries the last
  valid value and the length of the current run of filled cells.
\<close>

fun pad_run :: "'v cell \<Rightarrow> nat \<Rightarrow> nat option \<Rightarrow> 'v cell list \<Rightarrow> 'v cell list" where
  "pad_run prev n lim [] = []"
| "pad_run prev n lim (NaN # xs) =
     (if (case lim of None \<Rightarrow> True | Some l \<Rightarrow> n < l)
      then prev # pad_run prev (Suc n) lim xs
      else NaN # pad_run prev n lim xs)"
| "pad_run prev n lim (Val v # xs) = Val v # pad_run (Val v) 0 lim xs"

definition pad_1d :: "'v ndarray \<Rightarrow> nat option \<Rightarrow> 'v ndarray" where
  "pad_1d arr lim = arr\<lparr>data := pad_run NaN 0 lim (data arr)\<rparr>"

definition backfill_1d :: "'v ndarray \<Rightarrow> nat option \<Rightarrow> 'v ndarray" where
  "backfill_1d arr lim = arr\<lparr>data := rev (pad_run NaN 0 lim (rev (data arr)))\<rparr>"

text \<open>
  \<^verbatim>\<open>_get_fill_func(method)\<close>: \<^verbatim>\<open>com._clean_fill_method\<close> maps \<^verbatim>\<open>'ffill'\<close> to
  \<^verbatim>\<open>'pad'\<close> and \<^verbatim>\<open>'bfill'\<close> to \<^verbatim>\<open>'backfill'\<close>.
\<close>

fun get_fill_func :: "fill_method \<Rightarrow> 'v ndarray \<Rightarrow> nat option \<Rightarrow> 'v ndarray" where
  "get_fill_func Pad = pad_1d"
| "get_fill_func FFill = pad_1d"
| "get_fill_func Backfill = backfill_1d"
| "get_fill_func BFill = backfill_1d"

text \<open>
  \<^verbatim>\<open>Series.fillna(value, method, inplace, limit)\<close>. The result is the pair of the
  receiver after the call and the returned object.
\<close>

definition fillna ::
  "'v series \<Rightarrow> 'v cell option \<Rightarrow> fill_method option \<Rightarrow> bool \<Rightarrow> nat option
     \<Rightarrow> error + ('v series \<times> 'v obj)"
where
  "fillna self value method inplace limit =
     (if \<not> can_hold_na self then
        (if \<not> inplace
         then (case copy self of Inl e \<Rightarrow> Inl e | Inr c \<Rightarrow> Inr (self, New c))
         else Inr (self, Self))
      else
        (case value of
           Some v \<Rightarrow>
             (if \<not> inplace
              then (case copy self of
                      Inl e \<Rightarrow> Inl e
                    | Inr result \<Rightarrow>
                        Inr (self,
                             New (result\<lparr>values := putmask (values result) (isnull (values self)) v\<rparr>)))
              else Inr (self\<lparr>values := putmask (values self) (isnull (values self)) v\<rparr>, Self))
         | None \<Rightarrow>
             (case method of
                None \<Rightarrow> Inl ValueError
              | Some m \<Rightarrow>
                  (let filled = get_fill_func m (values self) limit in
                   if inplace then Inr (self\<lparr>values := filled\<rparr>, Self)
                   else (case Series filled (index self) (name self) of
                           Inl e \<Rightarrow> Inl e
                         | Inr r \<Rightarrow> Inr (self, New r))))))"

section \<open>Reindexing and alignment\<close>

text \<open>
  \<^verbatim>\<open>Series.reindex(index, method, level, fill_value, limit, copy)\<close>. The two
  collaborators it calls after the short cuts, \<^verbatim>\<open>self.index.reindex\<close> (with
  \<^verbatim>\<open>method\<close>, \<^verbatim>\<open>level\<close> and \<^verbatim>\<open>limit\<close> passed through) and \<^verbatim>\<open>com.take_1d\<close>,
  are parameters \<open>ixr\<close> and \<open>tk\<close>; \<open>reindex\<close> is the method with the modelled
  collaborators and the default \<^verbatim>\<open>method=None\<close>.
\<close>

definition reindex_with ::
  "(label list \<Rightarrow> label list \<Rightarrow> error + (label list \<times> nat option list))
     \<Rightarrow> ('v ndarray \<Rightarrow> nat option list \<Rightarrow> 'v cell \<Rightarrow> error + 'v ndarray)
     \<Rightarrow> 'v series \<Rightarrow> label list option \<Rightarrow> 'v cell \<Rightarrow> bool \<Rightarrow> error + 'v obj"
where
  "reindex_with ixr tk self idx fill_value cp =
     (case idx of
        None \<Rightarrow> Inl ValueError
      | Some i \<Rightarrow>
          if equals (index self) i then
            (if cp then and_then (copy self) (\<lambda>result. Inr (New (result\<lparr>index := i\<rparr>)))
             else Inr Self)
          else if length (index self) = 0 then Inr (New (Series_nan i (name self)))
          else
            and_then (ixr (index self) i) (\<lambda>(new_index, indexer).
            and_then (tk (values self) indexer fill_value) (\<lambda>new_values.
            and_then (Series new_values new_index (name self)) (\<lambda>r. Inr (New r)))))"

definition reindex :: "'v series \<Rightarrow> label list option \<Rightarrow> 'v cell \<Rightarrow> bool \<Rightarrow> error + 'v obj" where
  "reindex = reindex_with index_reindex take_1d"

text \<open>\<^verbatim>\<open>Series._reindex_indexer(new_index, indexer, copy)\<close>.\<close>

definition reindex_indexer ::
  "'v series \<Rightarrow> label list \<Rightarrow> nat option list option \<Rightarrow> bool \<Rightarrow> error + 'v obj"
where
  "reindex_indexer self new_index indexer cp =
     (case indexer of
        Some ix \<Rightarrow>
          and_then (take_1d (values self) ix NaN) (\<lambda>new_values.
          and_then (Series new_values new_index (name self)) (\<lambda>r. Inr (New r)))
      | None \<Rightarrow>
          if cp then and_then (copy self) (\<lambda>result. Inr (New result)) else Inr Self)"

text \<open>
  \<^verbatim>\<open>Series.align(other, join, level, copy, fill_value, method, inplace, limit)\<close> on a
  flat index (\<^verbatim>\<open>level=None\<close>). The left object refers to the receiver and the right
  one to \<open>other\<close>.
\<close>

definition align ::
  "'v series \<Rightarrow> 'v series \<Rightarrow> how \<Rightarrow> bool \<Rightarrow> 'v cell option \<Rightarrow> fill_method option \<Rightarrow> nat option
     \<Rightarrow> error + ('v obj \<times> 'v obj)"
where
  "align self other join cp fill_value method limit =
     (case index_join (index self) (index other) join of
        (join_index, lidx, ridx) \<Rightarrow>
          and_then (reindex_indexer self join_index lidx cp) (\<lambda>left.
          and_then (reindex_indexer other join_index ridx cp) (\<lambda>right.
          if fill_value \<noteq> None \<or> method \<noteq> None then
            and_then (fillna (deref self left) fill_value method False limit) (\<lambda>(l0, l).
            and_then (fillna (deref other right) fill_value method False limit) (\<lambda>(r0, r).
            Inr (New (deref l0 l), New (deref r0 r))))
          else Inr (left, right))))"

section \<open>Elementwise operators\<close>

text \<open>
  A binary operator (\<^verbatim>\<open>operator.add\<close>, \<^verbatim>\<open>operator.gt\<close>, ...): what it computes on two
  cells, where it can raise, and the element kind numpy gives the result array.
\<close>

record ('a, 'b) operator =
  fn :: "'a cell \<Rightarrow> 'a cell \<Rightarrow> error + 'b cell"
  out_kind :: "kind \<Rightarrow> kind \<Rightarrow> kind"

text \<open>
  numpy's application of an operator to two arrays, cell by cell; arrays of different
  lengths do not combine. With a scalar on the right the scalar meets every cell.
\<close>

definition np_op :: "('a, 'b) operator \<Rightarrow> 'a ndarray \<Rightarrow> 'a ndarray \<Rightarrow> error + 'b ndarray" where
  "np_op f x y =
     (if length (data x) \<noteq> length (data y) then Inl ValueError
      else and_then (sequence (map2 (fn f) (data x) (data y)))
             (\<lambda>r. Inr \<lparr>dtype = out_kind f (dtype x) (dtype y), data = r\<rparr>))"

definition np_op_scalar :: "('a, 'b) operator \<Rightarrow> 'a ndarray \<Rightarrow> 'a cell \<Rightarrow> error + 'b ndarray" where
  "np_op_scalar f x c =
     and_then (sequence (map (\<lambda>a. fn f a c) (data x)))
       (\<lambda>r. Inr \<lparr>dtype = out_kind f (dtype x) (dtype x), data = r\<rparr>)"

text \<open>The right operand of an operator wrapper.\<close>

datatype 'v operand = OSeries "'v series" | ODataFrame | OArray "'v ndarray" | OScalar "'v cell"

datatype 'v rhs = RArray "'v ndarray" | RScalar "'v cell"

text \<open>What a wrapper returns: a Series, or \<^verbatim>\<open>NotImplemented\<close>.\<close>

datatype 'v outcome = NotImplemented | Result "'v series"

text \<open>
  \<^verbatim>\<open>result[mask] = r\<close> on \<^verbatim>\<open>np.empty(len(mask))\<close> followed by
  \<^verbatim>\<open>np.putmask(result, -mask, nan)\<close>: the cells of \<open>r\<close> go to the positions the mask
  selects, every other position is missing.
\<close>

fun scatter :: "bool list \<Rightarrow> 'a cell list \<Rightarrow> 'a cell list" where
  "scatter [] rs = []"
| "scatter (True # ms) (r # rs) = r # scatter ms rs"
| "scatter (True # ms) [] = NaN # scatter ms []"
| "scatter (False # ms) rs = NaN # scatter ms rs"

text \<open>\<^verbatim>\<open>na_op\<close> of \<^verbatim>\<open>_arith_method\<close>.\<close>

fun arith_na_op :: "('a, 'a) operator \<Rightarrow> 'a ndarray \<Rightarrow> 'a rhs \<Rightarrow> error + 'a ndarray" where
  "arith_na_op f x (RArray y) =
     (case np_op f x y of
        Inr result \<Rightarrow> Inr result
      | Inl e \<Rightarrow>
          if e = TypeError then
            (let msk = map2 (\<and>) (notnull x) (notnull y) in
             and_then (masked (data x) msk) (\<lambda>xm.
             and_then (masked (data y) msk) (\<lambda>ym.
             and_then (np_op f (x\<lparr>data := xm\<rparr>) (y\<lparr>data := ym\<rparr>)) (\<lambda>r.
             Inr \<lparr>dtype = dtype x, data = scatter msk (data r)\<rparr>))))
          else Inl e)"
| "arith_na_op f x (RScalar c) =
     (case np_op_scalar f x c of
        Inr result \<Rightarrow> Inr result
      | Inl e \<Rightarrow>
          if e = TypeError then
            (let msk = notnull x in
             and_then (masked (data x) msk) (\<lambda>xm.
             and_then (np_op_scalar f (x\<lparr>data := xm\<rparr>) c) (\<lambda>r.
             Inr \<lparr>dtype = dtype x, data = scatter msk (data r)\<rparr>)))
          else Inl e)"

text \<open>
  The two paths of the \<^verbatim>\<open>wrapper\<close> of \<^verbatim>\<open>_arith_method\<close> for a Series operand: the
  fast path taken when the indexes are equal, and the outer-join path.
\<close>

definition arith_fast :: "('v, 'v) operator \<Rightarrow> 'v series \<Rightarrow> 'v series \<Rightarrow> error + 'v series" where
  "arith_fast f self other =
     and_then (arith_na_op f (values self) (RArray (values other)))
       (\<lambda>r. Series r (index self) (maybe_match_name self other))"

definition arith_join :: "('v, 'v) operator \<Rightarrow> 'v series \<Rightarrow> 'v series \<Rightarrow> error + 'v series" where
  "arith_join f self other =
     (case index_join (index self) (index other) Outer of
        (join_idx, lidx, ridx) \<Rightarrow>
          and_then (case lidx of None \<Rightarrow> Inr (values self)
                               | Some li \<Rightarrow> take_1d (values self) li NaN) (\<lambda>lvalues.
          and_then (case ridx of None \<Rightarrow> Inr (values other)
                               | Some ri \<Rightarrow> take_1d (values other) ri NaN) (\<lambda>rvalues.
          and_then (arith_na_op f lvalues (RArray rvalues)) (\<lambda>arr.
          Series arr join_idx (maybe_match_name self other)))))"

text \<open>The \<^verbatim>\<open>wrapper\<close> of \<^verbatim>\<open>_arith_method(op, name)\<close>.\<close>

fun arith_method :: "('v, 'v) operator \<Rightarrow> 'v series \<Rightarrow> 'v operand \<Rightarrow> error + 'v outcome" where
  "arith_method f self (OSeries other) =
     (if equals (index self) (index other)
      then and_then (arith_fast f self other) (\<lambda>r. Inr (Result r))
      else and_then (arith_join f self other) (\<lambda>r. Inr (Result r)))"
| "arith_method f self ODataFrame = Inr NotImplemented"
| "arith_method f self (OArray y) =
     and_then (arith_na_op f (values self) (RArray y)) (\<lambda>r.
     and_then (Series r (index self) (name self)) (\<lambda>s. Inr (Result s)))"
| "arith_method f self (OScalar c) =
     and_then (arith_na_op f (values self) (RScalar c)) (\<lambda>r.
     and_then (Series r (index self) (name self)) (\<lambda>s. Inr (Result s)))"

text \<open>
  Modelled from the spec: \<^verbatim>\<open>lib.vec_compare\<close>, \<^verbatim>\<open>lib.scalar_compare\<close>,
  \<^verbatim>\<open>lib.vec_binop\<close> and \<^verbatim>\<open>lib.scalar_binop\<close>, the "masked elementwise loop that
  computes the operation only where both operands are non-missing and writes the missing
  sentinel elsewhere"; the result is an object array.
\<close>

definition masked_cell :: "('a, 'b) operator \<Rightarrow> 'a cell \<Rightarrow> 'a cell \<Rightarrow> error + 'b cell" where
  "masked_cell f a b = (if a = NaN \<or> b = NaN then Inr NaN else fn f a b)"

fun masked_loop :: "('a, 'b) operator \<Rightarrow> 'a ndarray \<Rightarrow> 'a rhs \<Rightarrow> error + 'b ndarray" where
  "masked_loop f x (RArray y) =
     (if length (data x) \<noteq> length (data y) then Inl ValueError
      else and_then (sequence (map2 (masked_cell f) (data x) (data y)))
             (\<lambda>r. Inr \<lparr>dtype = Object, data = r\<rparr>))"
| "masked_loop f x (RScalar c) =
     and_then (sequence (map (\<lambda>a. masked_cell f a c) (data x)))
       (\<lambda>r. Inr \<lparr>dtype = Object, data = r\<rparr>)"

text \<open>\<^verbatim>\<open>na_op\<close> of \<^verbatim>\<open>_comp_method\<close>.\<close>

fun comp_na_op :: "('a, 'b) operator \<Rightarrow> 'a ndarray \<Rightarrow> 'a rhs \<Rightarrow> error + 'b ndarray" where
  "comp_na_op f x (RArray y) =
     (if dtype x = Object
      then (if dtype y \<noteq> Object then masked_loop f x (RArray (y\<lparr>dtype := Object\<rparr>))
            else masked_loop f x (RArray y))
      else np_op f x y)"
| "comp_na_op f x (RScalar c) =
     (if dtype x = Object then masked_loop f x (RScalar c) else np_op_scalar f x c)"

text \<open>
  The \<^verbatim>\<open>wrapper\<close> of \<^verbatim>\<open>_comp_method(op, name)\<close>. It pairs the two value buffers as
  they are, on the receiver's index.
\<close>

fun comp_method :: "('v, 'w) operator \<Rightarrow> 'v series \<Rightarrow> 'v operand \<Rightarrow> error + 'w outcome" where
  "comp_method f self (OSeries other) =
     and_then (comp_na_op f (values self) (RArray (values other))) (\<lambda>r.
     and_then (Series r (index self) (maybe_match_name self other)) (\<lambda>s. Inr (Result s)))"
| "comp_method f self ODataFrame = Inr NotImplemented"
| "comp_method f self (OArray y) =
     and_then (comp_na_op f (values self) (RArray y)) (\<lambda>r.
     and_then (Series r (index self) (name self)) (\<lambda>s. Inr (Result s)))"
| "comp_method f self (OScalar c) =
     and_then (comp_na_op f (values self) (RScalar c)) (\<lambda>r.
     and_then (Series r (index self) (name self)) (\<lambda>s. Inr (Result s)))"

text \<open>\<^verbatim>\<open>na_op\<close> of \<^verbatim>\<open>_bool_method\<close>.\<close>

fun bool_na_op :: "('a, 'b) operator \<Rightarrow> 'a ndarray \<Rightarrow> 'a rhs \<Rightarrow> error + 'b ndarray" where
  "bool_na_op f x (RArray y) =
     (case np_op f x y of
        Inr result \<Rightarrow> Inr result
      | Inl e \<Rightarrow>
          if e = TypeError then
            (if dtype x = Boolean \<and> dtype y = Boolean then np_op f x y
             else masked_loop f (x\<lparr>dtype := Object\<rparr>) (RArray (y\<lparr>dtype := Object\<rparr>)))
          else Inl e)"
| "bool_na_op f x (RScalar c) =
     (case np_op_scalar f x c of
        Inr result \<Rightarrow> Inr result
      | Inl e \<Rightarrow> if e = TypeError then masked_loop f x (RScalar c) else Inl e)"

text \<open>The \<^verbatim>\<open>wrapper\<close> of \<^verbatim>\<open>_bool_method(op, name)\<close>.\<close>

fun bool_method :: "('v, 'w) operator \<Rightarrow> 'v series \<Rightarrow> 'v operand \<Rightarrow> error + 'w outcome" where
  "bool_method f self (OSeries other) =
     and_then (bool_na_op f (values self) (RArray (values other))) (\<lambda>r.
     and_then (Series r (index self) (maybe_match_name self other)) (\<lambda>s. Inr (Result s)))"
| "bool_method f self ODataFrame = Inr NotImplemented"
| "bool_method f self (OArray y) =
     and_then (bool_na_op f (values self) (RArray y)) (\<lambda>r.
     and_then (Series r (index self) (name self)) (\<lambda>s. Inr (Result s)))"
| "bool_method f self (OScalar c) =
     and_then (bool_na_op f (values self) (RScalar c)) (\<lambda>r.
     and_then (Series r (index self) (name self)) (\<lambda>s. Inr (Result s)))"

section \<open>The flexible binary operation\<close>

text \<open>\<^verbatim>\<open>this_mask ^ other_mask\<close> and \<^verbatim>\<open>a & b\<close> on boolean arrays.\<close>

definition mask_xor :: "bool list \<Rightarrow> bool list \<Rightarrow> error + bool list" where
  "mask_xor a b = (if length a \<noteq> length b then Inl ValueError else Inr (map2 (\<noteq>) a b))"

definition mask_and :: "bool list \<Rightarrow> bool list \<Rightarrow> bool list" where
  "mask_and a b = map2 (\<and>) a b"

text \<open>
  The substitution step of \<^verbatim>\<open>Series._binop\<close>: with a fill value, the cells missing on
  exactly one side receive it.
\<close>

definition fill_one_sided ::
  "'v ndarray \<Rightarrow> 'v ndarray \<Rightarrow> 'v cell option \<Rightarrow> error + ('v ndarray \<times> 'v ndarray)"
where
  "fill_one_sided this_vals other_vals fill_value =
     (case fill_value of
        None \<Rightarrow> Inr (this_vals, other_vals)
      | Some v \<Rightarrow>
          (let this_mask = isnull this_vals; other_mask = isnull other_vals in
           and_then (mask_xor this_mask other_mask) (\<lambda>msk.
           Inr (putmask this_vals (mask_and this_mask msk) v,
                putmask other_vals (mask_and other_mask msk) v))))"

text \<open>
  The operands \<^verbatim>\<open>Series._binop\<close> works on: the two Series themselves when their indexes
  are equal, the outer-aligned pair otherwise.
\<close>

definition binop_operands :: "'v series \<Rightarrow> 'v series \<Rightarrow> error + ('v series \<times> 'v series)" where
  "binop_operands self other =
     (if \<not> equals (index self) (index other)
      then and_then (align self other Outer True None None None)
             (\<lambda>(l, r). Inr (deref self l, deref other r))
      else Inr (self, other))"

text \<open>\<^verbatim>\<open>Series._binop(other, func, level=None, fill_value)\<close>.\<close>

definition binop ::
  "'v series \<Rightarrow> 'v series \<Rightarrow> ('v, 'w) operator \<Rightarrow> 'v cell option \<Rightarrow> error + 'w series"
where
  "binop self other func fill_value =
     and_then (binop_operands self other) (\<lambda>(this, other').
     and_then (fill_one_sided (values this) (values other') fill_value) (\<lambda>(this_vals, other_vals).
     and_then (np_op func this_vals other_vals) (\<lambda>result.
     Series result (index this) (maybe_match_name self other'))))"

section \<open>Label lookup and combination\<close>

text \<open>
  Modelled from the spec: the label lookup of the index engine
  (\<^verbatim>\<open>self.index._engine.get_value\<close>). "given a label, return the associated value; if the
  label maps to multiple positions (non-unique index) return a new Aligned Array of the
  matches; fails with KeyNotFound if absent".
\<close>

datatype 'v got = Scalar "'v cell" | Many "'v series"

definition matches :: "'v series \<Rightarrow> label \<Rightarrow> 'v cell list" where
  "matches self l = map snd (filter (\<lambda>kv. fst kv = l) (zip (index self) (data (values self))))"

definition get_value :: "'v series \<Rightarrow> label \<Rightarrow> error + 'v got" where
  "get_value self l =
     (case matches self l of
        [] \<Rightarrow> Inl KeyError
      | [v] \<Rightarrow> Inr (Scalar v)
      | vs \<Rightarrow> Inr (Many \<lparr>index = replicate (length vs) l,
                          values = \<lparr>dtype = dtype (values self), data = vs\<rparr>,
                          name = name self\<rparr>))"

text \<open>\<^verbatim>\<open>Series.get(label, default)\<close>.\<close>

definition get :: "'v series \<Rightarrow> label \<Rightarrow> 'v cell \<Rightarrow> error + 'v got" where
  "get self l dflt =
     (case get_value self l of
        Inr g \<Rightarrow> Inr g
      | Inl e \<Rightarrow> if e = KeyError then Inr (Scalar dflt) else Inl e)"

text \<open>
  \<^verbatim>\<open>new_values[i] = func(lv, rv)\<close> in \<^verbatim>\<open>Series.combine\<close>: the function meets the two
  looked-up values; one cell of the buffer cannot take a sequence, and a cell of an
  integer buffer cannot take the missing value.
\<close>

definition combine_cell :: "('v, 'v) operator \<Rightarrow> kind \<Rightarrow> 'v got \<Rightarrow> 'v got \<Rightarrow> error + 'v cell" where
  "combine_cell func k lv rv =
     (case (lv, rv) of
        (Scalar a, Scalar b) \<Rightarrow>
          and_then (fn func a b) (\<lambda>c. if k = Integer \<and> c = NaN then Inl ValueError else Inr c)
      | _ \<Rightarrow> Inl ValueError)"

datatype 'v combine_other = CSeries "'v series" | CValue "'v rhs"

text \<open>\<^verbatim>\<open>Series.combine(other, func, fill_value)\<close>.\<close>

fun combine ::
  "'v series \<Rightarrow> 'v combine_other \<Rightarrow> ('v, 'v) operator \<Rightarrow> 'v cell \<Rightarrow> error + 'v series"
where
  "combine self (CSeries other) func fill_value =
     (let new_index = index_union (index self) (index other);
          new_name = maybe_match_name self other
      in and_then
           (sequence (map (\<lambda>idx. and_then (get self idx fill_value) (\<lambda>lv.
                                   and_then (get other idx fill_value) (\<lambda>rv.
                                   combine_cell func (dtype (values self)) lv rv)))
                          new_index))
           (\<lambda>new_values.
              Series \<lparr>dtype = dtype (values self), data = new_values\<rparr> new_index new_name))"
| "combine self (CValue (RArray y)) func fill_value =
     and_then (np_op func (values self) y) (\<lambda>new_values.
     Series new_values (index self) (name self))"
| "combine self (CValue (RScalar c)) func fill_value =
     and_then (np_op_scalar func (values self) c) (\<lambda>new_values.
     Series new_values (index self) (name self))"

text \<open>numpy's common element kind of two arrays, as \<^verbatim>\<open>np.where\<close> gives its result.\<close>

definition result_type :: "kind \<Rightarrow> kind \<Rightarrow> kind" where
  "result_type a b =
     (if a = b then a
      else if {a, b} = {Integer, Floating} then Floating
      else if {a, b} = {Boolean, Integer} then Integer
      else if {a, b} = {Boolean, Floating} then Floating
      else Object)"



section \<open>Sorting by value\<close>

text \<open>
  \<^verbatim>\<open>ndarray.argsort(kind='mergesort')\<close>: the positions of the cells in ascending order
  of their values, positions of equal values in their original order.
\<close>

definition argsort_mergesort :: "'v::linorder list \<Rightarrow> nat list" where
  "argsort_mergesort xs = map snd (sort_key fst (zip xs [0..<length xs]))"

text \<open>
  \<^verbatim>\<open>_try_mergesort(arr)\<close> of \<^verbatim>\<open>Series.order\<close>: "stable sort not available for object
  dtype", where numpy raises \<^verbatim>\<open>TypeError\<close> and the method falls back on
  \<^verbatim>\<open>arr.argsort()\<close>, numpy's default sort. That sort is the parameter \<open>quick\<close>.
\<close>

definition try_mergesort :: "('v list \<Rightarrow> nat list) \<Rightarrow> kind \<Rightarrow> 'v::linorder list \<Rightarrow> nat list" where
  "try_mergesort quick k arr = (if k = Object then quick arr else argsort_mergesort arr)"

text \<open>The value of a cell that is not missing.\<close>

fun the_val :: "'v cell \<Rightarrow> 'v" where
  "the_val (Val v) = v"
| "the_val NaN = undefined"

text \<open>
  \<^verbatim>\<open>Series.order(na_last, ascending, kind)\<close>. The body never reads \<^verbatim>\<open>kind\<close>: it
  always asks for the mergesort first. The positions are collected in
  \<^verbatim>\<open>sortedIdx = np.empty(len(self), dtype=np.int32)\<close>, so each is stored as a 32-bit
  integer before it indexes the values and the labels. An argsort result of the wrong
  length cannot be stored into \<^verbatim>\<open>sortedIdx[:n]\<close>.
\<close>

definition order_series ::
  "('v list \<Rightarrow> nat list) \<Rightarrow> 'v::linorder series \<Rightarrow> bool \<Rightarrow> bool \<Rightarrow> error + 'v series"
where
  "order_series quick self na_last ascending =
     (let arr = values self;
          idx = [0..<length (data arr)];
          good_idx = filter (\<lambda>i. data arr ! i \<noteq> NaN) idx;
          bad_idx = filter (\<lambda>i. data arr ! i = NaN) idx;
          argsorted = try_mergesort quick (dtype arr) (map (\<lambda>i. the_val (data arr ! i)) good_idx);
          argsorted' = (if \<not> ascending then rev argsorted else argsorted)
      in and_then (fancy good_idx argsorted') (\<lambda>sorted_good.
         if length sorted_good \<noteq> length good_idx then Inl ValueError
         else
           (let sortedIdx = map (\<lambda>i. int32 (int i))
                  (if na_last then sorted_good @ bad_idx else bad_idx @ sorted_good) in
            and_then (np_getitem (data arr) (IPos sortedIdx)) (\<lambda>new_values.
            and_then (np_getitem (index self) (IPos sortedIdx)) (\<lambda>new_index.
            Series (arr\<lparr>data := new_values\<rparr>) new_index (name self))))))"

text \<open>
  What numpy promises of any argsort: a permutation of the positions that puts the values
  in ascending order.
\<close>

definition valid_argsort :: "('v::linorder list \<Rightarrow> nat list) \<Rightarrow> bool" where
  "valid_argsort q = (\<forall>xs. mset (q xs) = mset [0..<length xs] \<and> sorted (map ((!) xs) (q xs)))"

text \<open>
  An argsort within that promise that is not stable: it lists the positions of equal
  values from the last to the first.
\<close>

definition argsort_last_first :: "'v::linorder list \<Rightarrow> nat list" where
  "argsort_last_first xs = map snd (sort_key fst (rev (zip xs [0..<length xs])))"

text \<open>
  The value a Series holds at a label: the cell at the label's (first) position, and the
  missing value when the label is not in the index. This is what reindexing to a set of
  labels puts at each of them.
\<close>

definition lookup :: "'v series \<Rightarrow> label \<Rightarrow> 'v cell" where
  "lookup s l = (case get_loc (index s) l of None \<Rightarrow> NaN | Some p \<Rightarrow> data (values s) ! p)"

section \<open>Example Series\<close>

text \<open>The integer-kind Series \<^verbatim>\<open>Series([1, 2, 3])\<close> with its default index.\<close>

definition ints123 :: "int series" where
  "ints123 = \<lparr>index = [IntL 0, IntL 1, IntL 2],
               values = \<lparr>dtype = Integer, data = [Val 1, Val 2, Val 3]\<rparr>,
               name = None\<rparr>"

text \<open>
  The two Series of the fill scenario: \<^verbatim>\<open>A = {'x': 1, 'y': nan}\<close> and
  \<^verbatim>\<open>B = {'x': nan, 'y': 2}\<close>.
\<close>

definition serA :: "int series" where
  "serA = \<lparr>index = [StrL ''x'', StrL ''y''],
            values = \<lparr>dtype = Floating, data = [Val 1, NaN]\<rparr>,
            name = None\<rparr>"

definition serB :: "int series" where
  "serB = \<lparr>index = [StrL ''x'', StrL ''y''],
            values = \<lparr>dtype = Floating, data = [NaN, Val 2]\<rparr>,
            name = None\<rparr>"

text \<open>\<^verbatim>\<open>operator.add\<close> on numbers: a missing operand gives a missing result.\<close>

fun add_cell :: "int cell \<Rightarrow> int cell \<Rightarrow> error + int cell" where
  "add_cell (Val a) (Val b) = Inr (Val (a + b))"
| "add_cell NaN b = Inr NaN"
| "add_cell a NaN = Inr NaN"

definition op_add :: "(int, int) operator" where
  "op_add = \<lparr>fn = add_cell, out_kind = result_type\<rparr>"

text \<open>\<^verbatim>\<open>operator.ne\<close>: a missing value differs from everything, itself included.\<close>

fun ne_cell :: "int cell \<Rightarrow> int cell \<Rightarrow> error + bool cell" where
  "ne_cell (Val a) (Val b) = Inr (Val (a \<noteq> b))"
| "ne_cell NaN b = Inr (Val True)"
| "ne_cell a NaN = Inr (Val True)"

definition op_ne :: "(int, bool) operator" where
  "op_ne = \<lparr>fn = ne_cell, out_kind = (\<lambda>a b. Boolean)\<rparr>"

text \<open>A third Series, on other labels and with a name.\<close>

definition serC :: "int series" where
  "serC = \<lparr>index = [StrL ''y'', StrL ''z''],
            values = \<lparr>dtype = Floating, data = [Val 10, NaN]\<rparr>,
            name = Some ''c''\<rparr>"

text \<open>An empty Series of integer kind.\<close>

definition ints_empty :: "int series" where
  "ints_empty = \<lparr>index = [], values = \<lparr>dtype = Integer, data = []\<rparr>, name = None\<rparr>"

text \<open>A Series whose only value is missing.\<close>

definition serN :: "int series" where
  "serN = \<lparr>index = [StrL ''x''],
            values = \<lparr>dtype = Floating, data = [NaN]\<rparr>,
            name = None\<rparr>"





text \<open>
  \<^verbatim>\<open>Series({'a': 3, 'b': 1, 'c': 2})\<close> (a dict is laid out on its sorted keys), and a
  Series with a tie and a missing value.
\<close>

definition abc :: "int series" where
  "abc = \<lparr>index = [StrL ''a'', StrL ''b'', StrL ''c''],
           values = \<lparr>dtype = Integer, data = [Val 3, Val 1, Val 2]\<rparr>, name = None\<rparr>"

definition ties :: "int series" where
  "ties = \<lparr>index = [StrL ''a'', StrL ''b'', StrL ''c'', StrL ''d''],
            values = \<lparr>dtype = Floating, data = [Val 2, Val 1, Val 2, NaN]\<rparr>, name = None\<rparr>"

text \<open>
  The same Series held in an object buffer, and a Series of \<open>2\<^sup>3\<^sup>1 + 1\<close> elements
  already in order: the value \<open>i\<close> at the label \<open>i\<close>.
\<close>

definition ties_object :: "int series" where
  "ties_object = \<lparr>index = [StrL ''a'', StrL ''b'', StrL ''c'', StrL ''d''],
            values = \<lparr>dtype = Object, data = [Val 2, Val 1, Val 2, NaN]\<rparr>, name = None\<rparr>"

definition long_ramp :: "int series" where
  "long_ramp = \<lparr>index = map (\<lambda>i. IntL (int i)) [0..<2 ^ 31 + 1],
            values = \<lparr>dtype = Integer, data = map (\<lambda>i. Val (int i)) [0..<2 ^ 31 + 1]\<rparr>,
            name = None\<rparr>"

section \<open>Basic facts\<close>

lemma and_then_Inr:
  "and_then m k = Inr r \<longleftrightarrow> (\<exists>a. m = Inr a \<and> k a = Inr r)"
  by (cases m) auto

lemma sequence_Inr_length: "sequence xs = Inr ys \<Longrightarrow> length ys = length xs"
  by (induction xs arbitrary: ys) (auto simp: and_then_Inr)

lemma sequence_Inr_nth:
  "sequence xs = Inr ys \<Longrightarrow> i < length xs \<Longrightarrow> xs ! i = Inr (ys ! i)"
proof (induction xs arbitrary: ys i)
  case Nil
  then show ?case by simp
next
  case (Cons x xs)
  then show ?case
    by (cases i) (auto simp: and_then_Inr)
qed

lemma sequence_all_Inr:
  "(\<And>x. x \<in> set xs \<Longrightarrow> \<exists>v. x = Inr v) \<Longrightarrow> \<exists>ys. sequence xs = Inr ys"
proof (induction xs)
  case Nil
  then show ?case by simp
next
  case (Cons x xs)
  then obtain v where "x = Inr v" by auto
  moreover from Cons obtain ys where "sequence xs = Inr ys" by auto
  ultimately show ?case by simp
qed

lemma np_op_Inr:
  assumes "np_op f x y = Inr r"
  shows "length (data x) = length (data y)"
    and "length (data r) = length (data x)"
    and "dtype r = out_kind f (dtype x) (dtype y)"
    and "i < length (data x) \<Longrightarrow> fn f (data x ! i) (data y ! i) = Inr (data r ! i)"
proof -
  from assms have len: "length (data x) = length (data y)"
    by (auto simp: np_op_def split: if_splits)
  from assms len obtain q where q: "sequence (map2 (fn f) (data x) (data y)) = Inr q"
    and r: "r = \<lparr>dtype = out_kind f (dtype x) (dtype y), data = q\<rparr>"
    by (auto simp: np_op_def and_then_Inr)
  show "length (data x) = length (data y)" by (rule len)
  from sequence_Inr_length [OF q] len r show "length (data r) = length (data x)" by simp
  from r show "dtype r = out_kind f (dtype x) (dtype y)" by simp
  show "fn f (data x ! i) (data y ! i) = Inr (data r ! i)" if "i < length (data x)"
    using sequence_Inr_nth [OF q, of i] that len r by simp
qed

lemma np_op_scalar_Inr:
  assumes "np_op_scalar f x c = Inr r"
  shows "length (data r) = length (data x)"
  using assms by (auto simp: np_op_scalar_def and_then_Inr dest: sequence_Inr_length)

lemma wf_Series: "Series arr idx nm = Inr s \<Longrightarrow> wfs s"
  by (auto simp: Series_def wfs_def split: if_splits)

lemma Series_fields:
  "Series arr idx nm = Inr s \<Longrightarrow> index s = idx \<and> values s = arr \<and> name s = nm"
  by (auto simp: Series_def split: if_splits)

lemma Series_ok:
  "length (data arr) = length idx \<Longrightarrow> Series arr idx nm = Inr \<lparr>index = idx, values = arr, name = nm\<rparr>"
  by (simp add: Series_def)

lemma copy_wf: "wfs s \<Longrightarrow> copy s = Inr s"
  by (simp add: copy_def Series_def wfs_def)

lemma length_pad_run: "length (pad_run prev n lim xs) = length xs"
  by (induction prev n lim xs rule: pad_run.induct) auto

lemma length_get_fill_func: "length (data (get_fill_func m arr lim)) = length (data arr)"
  by (cases m) (simp_all add: pad_1d_def backfill_1d_def length_pad_run)

lemma reindex_indexer_name:
  "reindex_indexer s ni ix cp = Inr ob \<Longrightarrow> name (deref s ob) = name s"
  by (auto simp: reindex_indexer_def and_then_Inr copy_def
      dest!: Series_fields split: option.splits if_splits)

lemma binop_operands_name:
  "binop_operands A B = Inr (this, other') \<Longrightarrow> name this = name A \<and> name other' = name B"
  by (auto simp: binop_operands_def align_def and_then_Inr
      split: if_splits prod.splits dest: reindex_indexer_name)

lemma get_loc_None_iff: "get_loc la l = None \<longleftrightarrow> l \<notin> set la"
  by (induction la) auto


lemma get_loc_nth: "distinct la \<Longrightarrow> i < length la \<Longrightarrow> get_loc la (la ! i) = Some i"
proof (induction la arbitrary: i)
  case Nil
  then show ?case by simp
next
  case (Cons x xs)
  then show ?case by (cases i) auto
qed

lemma index_union_props:
  "distinct (index_union la lb)" "sorted (index_union la lb)"
  "set (index_union la lb) = set la \<union> set lb"
  by (simp_all add: index_union_def)


lemma lookup_self: "distinct (index s) \<Longrightarrow> i < length (index s) \<Longrightarrow> lookup s (index s ! i) = data (values s) ! i"
  by (simp add: lookup_def get_loc_nth)

lemma take_1d_Inr:
  assumes "take_1d arr ix fv = Inr r"
  shows "dtype r = dtype arr" "length (data r) = length ix"
    "i < length ix \<Longrightarrow> data r ! i = (case ix ! i of None \<Rightarrow> fv | Some p \<Rightarrow> data arr ! p)"
  using assms by (auto simp: take_1d_def split: if_splits)

lemma reindex_indexer_lookup:
  assumes w: "wfs s" and d: "distinct U"
    and ix: "ix = (if U = index s then None else Some (get_indexer (index s) U))"
    and r: "reindex_indexer s U ix cp = Inr ob"
  shows "index (deref s ob) = U" "wfs (deref s ob)" "dtype (values (deref s ob)) = dtype (values s)"
    "i < length U \<Longrightarrow> data (values (deref s ob)) ! i = lookup s (U ! i)"
proof -
  show "index (deref s ob) = U"
    using r ix by (auto simp: reindex_indexer_def and_then_Inr copy_def dest!: Series_fields split: if_splits)
  show "wfs (deref s ob)"
    using r ix w by (auto simp: reindex_indexer_def and_then_Inr copy_def dest: wf_Series split: if_splits)
  show "dtype (values (deref s ob)) = dtype (values s)"
    using r ix by (auto simp: reindex_indexer_def and_then_Inr copy_def dest!: Series_fields dest: take_1d_Inr(1) split: if_splits)
  show "data (values (deref s ob)) ! i = lookup s (U ! i)" if i: "i < length U"
  proof (cases "U = index s")
    case True
    with r ix w have "deref s ob = s"
      by (auto simp: reindex_indexer_def and_then_Inr copy_wf split: if_splits)
    with True d i show ?thesis by (simp add: lookup_self)
  next
    case False
    with r ix obtain nv where t: "take_1d (values s) (get_indexer (index s) U) NaN = Inr nv"
      and v: "values (deref s ob) = nv"
      by (auto simp: reindex_indexer_def and_then_Inr dest!: Series_fields)
    from take_1d_Inr(3) [OF t, of i] i v show ?thesis
      by (simp add: get_indexer_def lookup_def)
  qed
qed



lemma binop_operands_equal:
  "index A = index B \<Longrightarrow> binop_operands A B = Inr (A, B)"
  by (simp add: binop_operands_def equals_def)

lemma binop_operands_aligned:
  assumes wA: "wfs A" and wB: "wfs B" and ne: "index A \<noteq> index B"
    and ops: "binop_operands A B = Inr (this, other')"
  shows "index this = index_union (index A) (index B)"
    and "index other' = index_union (index A) (index B)"
    and "wfs this" and "wfs other'"
    and "i < length (index_union (index A) (index B)) \<Longrightarrow>
           data (values this) ! i = lookup A (index_union (index A) (index B) ! i)
         \<and> data (values other') ! i = lookup B (index_union (index A) (index B) ! i)"
proof -
  let ?U = "index_union (index A) (index B)"
  let ?li = "if ?U = index A then None else Some (get_indexer (index A) ?U)"
  let ?ri = "if ?U = index B then None else Some (get_indexer (index B) ?U)"
  from ops ne obtain l r where l: "reindex_indexer A ?U ?li True = Inr l"
    and r: "reindex_indexer B ?U ?ri True = Inr r"
    and t: "this = deref A l" and o: "other' = deref B r"
    by (auto simp: binop_operands_def equals_def align_def index_join_def Let_def and_then_Inr
        split: if_splits)
  have d: "distinct ?U" by (simp add: index_union_props)
  note LA = reindex_indexer_lookup [OF wA d refl l]
  note LB = reindex_indexer_lookup [OF wB d refl r]
  from LA(1) t show "index this = ?U" by simp
  from LB(1) o show "index other' = ?U" by simp
  from LA(2) t show "wfs this" by simp
  from LB(2) o show "wfs other'" by simp
  show "data (values this) ! i = lookup A (?U ! i) \<and> data (values other') ! i = lookup B (?U ! i)"
    if "i < length ?U"
    using LA(4) [OF that] LB(4) [OF that] t o by simp
qed

lemma fill_one_sided_Some:
  assumes "fill_one_sided x y (Some v) = Inr (x', y')"
  shows "length (data x) = length (data y)"
    and "length (data x') = length (data x)" and "length (data y') = length (data y)"
    and "dtype x' = dtype x" and "dtype y' = dtype y"
    and "i < length (data x) \<Longrightarrow>
           data x' ! i = (if data x ! i = NaN \<and> data y ! i \<noteq> NaN then v else data x ! i)
         \<and> data y' ! i = (if data y ! i = NaN \<and> data x ! i \<noteq> NaN then v else data y ! i)"
  using assms
  by (auto simp: fill_one_sided_def Let_def mask_xor_def mask_and_def putmask_def isnull_def
      and_then_Inr split: if_splits)

lemma reindex_indexer_returns:
  assumes "wfs s" "can_hold_na s" "ix = (if U = index s then None else Some (get_indexer (index s) U))"
  shows "\<exists>ob. reindex_indexer s U ix cp = Inr ob"
  using assms
  by (auto simp: reindex_indexer_def take_1d_def can_hold_na_def Series_def get_indexer_def copy_wf)

lemma binop_operands_returns:
  assumes "wfs A" "wfs B" "can_hold_na A" "can_hold_na B"
  shows "\<exists>p. binop_operands A B = Inr p"
proof (cases "index A = index B")
  case True
  then show ?thesis by (simp add: binop_operands_equal)
next
  case False
  let ?U = "index_union (index A) (index B)"
  from reindex_indexer_returns [OF assms(1,3) refl, of ?U True]
  obtain l where l: "reindex_indexer A ?U (if ?U = index A then None else Some (get_indexer (index A) ?U)) True = Inr l"
    by blast
  from reindex_indexer_returns [OF assms(2,4) refl, of ?U True]
  obtain r where r: "reindex_indexer B ?U (if ?U = index B then None else Some (get_indexer (index B) ?U)) True = Inr r"
    by blast
  from False l r show ?thesis
    by (simp add: binop_operands_def equals_def align_def index_join_def Let_def)
qed

lemma binop_operands_wf:
  assumes wA: "wfs A" and wB: "wfs B" and ops: "binop_operands A B = Inr (this, other')"
  shows "wfs this \<and> wfs other' \<and> index other' = index this"
proof (cases "index A = index B")
  case True
  from binop_operands_equal [OF True] ops have "this = A" "other' = B"
    by simp_all
  with True wA wB show ?thesis by simp
next
  case False
  from binop_operands_aligned(1-4) [OF wA wB False ops] show ?thesis
    by simp
qed

lemma np_op_returns:
  assumes "length (data x) = length (data y)" "\<And>a b. \<exists>c. fn f a b = Inr c"
  shows "\<exists>r. np_op f x y = Inr r"
proof -
  have "\<exists>q. sequence (map2 (fn f) (data x) (data y)) = Inr q"
    using assms(2) by (intro sequence_all_Inr) auto
  with assms(1) show ?thesis by (auto simp: np_op_def)
qed

lemma binop_returns:
  assumes wA: "wfs A" and wB: "wfs B" and cA: "can_hold_na A" and cB: "can_hold_na B"
    and tot: "\<And>a b. \<exists>c. fn f a b = Inr c"
  shows "\<exists>r. binop A B f fv = Inr r"
proof -
  from binop_operands_returns [OF wA wB cA cB] obtain this other'
    where ops: "binop_operands A B = Inr (this, other')" by force
  from binop_operands_wf [OF wA wB ops]
  have W: "wfs this" "wfs other'" "index other' = index this" by simp_all
  from W have len: "length (data (values this)) = length (data (values other'))"
    by (simp add: wfs_def)
  then obtain tv ov where fl: "fill_one_sided (values this) (values other') fv = Inr (tv, ov)"
    and l2: "length (data tv) = length (data (values this))" "length (data ov) = length (data (values other'))"
    by (cases fv) (auto simp: fill_one_sided_def Let_def mask_xor_def mask_and_def putmask_def isnull_def)
  from np_op_returns [OF _ tot, of tv ov] l2 len obtain res where ap: "np_op f tv ov = Inr res"
    by auto
  from np_op_Inr(2) [OF ap] l2 W(1) have "length (data res) = length (index this)"
    by (simp add: wfs_def)
  then have "\<exists>r. Series res (index this) (maybe_match_name A other') = Inr r"
    by (simp add: Series_def)
  with ops fl ap show ?thesis
    by (auto simp: binop_def)
qed







lemma masked_Nil: "masked [] [] = Inr []"
  by (simp add: masked_def)

lemma masked_Inr_length: "masked xs ms = Inr r \<Longrightarrow> length ms = length xs"
  by (simp add: masked_def split: if_splits)









lemma map_nth_filter:
  "map ((!) xs) (filter (\<lambda>i. P (xs ! i)) [0..<length xs]) = filter P xs"
proof -
  have "filter P xs = filter P (map ((!) xs) [0..<length xs])"
    by (simp add: map_nth)
  also have "\<dots> = map ((!) xs) (filter (P \<circ> (!) xs) [0..<length xs])"
    by (simp only: filter_map)
  finally show ?thesis by (simp add: comp_def)
qed

lemma zip_upt_fst:
  "p \<in> set (zip xs [0..<length xs]) \<Longrightarrow> fst p = xs ! snd p"
  by (auto simp: in_set_zip)

lemma argsort_mergesort_mset: "mset (argsort_mergesort xs) = mset [0..<length xs]"
proof -
  have z: "map snd (zip xs [0..<length xs]) = [0..<length xs]"
    by (simp add: map_snd_zip)
  have "mset (argsort_mergesort xs) = image_mset snd (mset (sort_key fst (zip xs [0..<length xs])))"
    unfolding argsort_mergesort_def by (rule mset_map)
  also have "\<dots> = image_mset snd (mset (zip xs [0..<length xs]))"
    by (simp only: mset_sort)
  also have "\<dots> = mset (map snd (zip xs [0..<length xs]))"
    by (rule mset_map [symmetric])
  also have "\<dots> = mset [0..<length xs]"
    by (simp only: z)
  finally show ?thesis .
qed

lemma argsort_mergesort_map:
  "map ((!) xs) (argsort_mergesort xs) = map fst (sort_key fst (zip xs [0..<length xs]))"
proof -
  have "\<And>p. p \<in> set (sort_key fst (zip xs [0..<length xs])) \<Longrightarrow> xs ! snd p = fst p"
    using zip_upt_fst [of _ xs] by simp
  then show ?thesis
    by (simp add: argsort_mergesort_def)
qed

lemma argsort_mergesort_sorted: "sorted (map ((!) xs) (argsort_mergesort xs))"
  by (simp add: argsort_mergesort_map)

lemma valid_argsort_mergesort: "valid_argsort argsort_mergesort"
  by (simp add: valid_argsort_def argsort_mergesort_mset argsort_mergesort_sorted)

lemma perm_positions:
  assumes "mset p = mset [0..<m]"
  shows "length p = m" and "\<forall>i \<in> set p. i < m"
proof -
  from assms have "size (mset p) = size (mset [0..<m])" by simp
  then show "length p = m" by simp
  from assms have "set p = set [0..<m]" by (rule mset_eq_setD)
  then show "\<forall>i \<in> set p. i < m" by simp
qed

lemma perm_map_nth:
  assumes "mset p = mset [0..<length xs]"
  shows "mset (map ((!) xs) p) = mset xs"
proof -
  have "mset (map ((!) xs) p) = image_mset ((!) xs) (mset p)"
    by (rule mset_map)
  also have "\<dots> = image_mset ((!) xs) (mset [0..<length xs])"
    by (simp only: assms)
  also have "\<dots> = mset (map ((!) xs) [0..<length xs])"
    by (rule mset_map [symmetric])
  also have "\<dots> = mset xs"
    by (simp only: map_nth)
  finally show ?thesis .
qed

lemma zip_as_map:
  assumes "length xs = length ys"
  shows "zip xs ys = map (\<lambda>i. (xs ! i, ys ! i)) [0..<length xs]"
  using assms by (intro nth_equalityI) simp_all

lemma good_bad_partition:
  "mset (filter (\<lambda>i. P i) xs) + mset (filter (\<lambda>i. \<not> P i) xs) = mset xs"
  by (induction xs) simp_all

lemma fancy_ok: "\<forall>i \<in> set ps. i < length xs \<Longrightarrow> fancy xs ps = Inr (map ((!) xs) ps)"
  by (simp add: fancy_def)

lemma int32_small:
  assumes "i < 2 ^ 31"
  shows "int32 (int i) = int i"
proof -
  from assms have "int i < 2 ^ 31"
    by (metis of_nat_less_iff of_nat_numeral of_nat_power)
  then have "0 \<le> int i + 2 ^ 31" and "int i + 2 ^ 31 < 2 ^ 32"
    by simp_all
  then have "(int i + 2 ^ 31) mod 2 ^ 32 = int i + 2 ^ 31"
    by (rule mod_pos_pos_trivial)
  then show ?thesis
    by (simp add: int32_def)
qed

lemma np_getitem_positions:
  assumes "\<forall>i \<in> set ps. i < length xs"
  shows "np_getitem xs (IPos (map int ps)) = Inr (map ((!) xs) ps)"
proof -
  have "map (\<lambda>i. if i < 0 then nat (int (length xs) + i) else nat i) (map int ps) = ps"
    by (simp add: comp_def)
  moreover have "\<forall>i \<in> set (map int ps). - int (length xs) \<le> i \<and> i < int (length xs)"
    using assms by auto
  ultimately show ?thesis
    by (simp add: np_getitem_def del: set_map)
qed

lemma order_series_positions:
  fixes A :: "'v::linorder series" and quick :: "'v list \<Rightarrow> nat list"
  defines "d \<equiv> data (values A)"
  defines "G \<equiv> filter (\<lambda>i. d ! i \<noteq> NaN) [0..<length d]"
  defines "B \<equiv> filter (\<lambda>i. d ! i = NaN) [0..<length d]"
  defines "p \<equiv> try_mergesort quick (dtype (values A)) (map (\<lambda>i. the_val (d ! i)) G)"
  assumes perm: "mset p = mset [0..<length G]"
  shows "order_series quick A True True
       = and_then (np_getitem d (IPos (map (\<lambda>i. int32 (int i)) (map ((!) G) p @ B))))
           (\<lambda>new_values.
         and_then (np_getitem (index A) (IPos (map (\<lambda>i. int32 (int i)) (map ((!) G) p @ B))))
           (\<lambda>new_index.
         Series ((values A)\<lparr>data := new_values\<rparr>) new_index (name A)))"
proof -
  note PP = perm_positions [OF perm]
  have f1: "fancy G p = Inr (map ((!) G) p)"
    using PP(2) by (rule fancy_ok)
  show ?thesis
    unfolding order_series_def Let_def
    using f1 PP(1)
    by (simp add: d_def [symmetric] G_def [symmetric] B_def [symmetric] p_def [symmetric])
qed

lemma order_series_result:
  fixes A :: "'v::linorder series" and quick :: "'v list \<Rightarrow> nat list"
  defines "d \<equiv> data (values A)"
  defines "G \<equiv> filter (\<lambda>i. d ! i \<noteq> NaN) [0..<length d]"
  defines "B \<equiv> filter (\<lambda>i. d ! i = NaN) [0..<length d]"
  defines "p \<equiv> try_mergesort quick (dtype (values A)) (map (\<lambda>i. the_val (d ! i)) G)"
  assumes w: "wfs A" and n: "length (index A) \<le> 2 ^ 31" and perm: "mset p = mset [0..<length G]"
  shows "order_series quick A True True
       = Inr \<lparr>index = map ((!) (index A)) (map ((!) G) p @ B),
               values = (values A)\<lparr>data := map ((!) d) (map ((!) G) p @ B)\<rparr>,
               name = name A\<rparr>"
proof -
  from w have li: "length (index A) = length d"
    by (simp add: wfs_def d_def)
  note PP = perm_positions [OF perm]
  have inG: "\<forall>i \<in> set G. i < length d" and inB: "\<forall>i \<in> set B. i < length d"
    by (auto simp: G_def B_def)
  have inS: "\<forall>i \<in> set (map ((!) G) p @ B). i < length d"
    using PP(2) inG inB by auto
  have s32: "map (\<lambda>i. int32 (int i)) (map ((!) G) p @ B) = map int (map ((!) G) p @ B)"
  proof (rule map_cong [OF refl])
    fix i assume "i \<in> set (map ((!) G) p @ B)"
    with inS have "i < length d" by blast
    with n li have "i < 2 ^ 31" by simp
    then show "int32 (int i) = int i" by (rule int32_small)
  qed
  have f2: "np_getitem d (IPos (map int (map ((!) G) p @ B)))
          = Inr (map ((!) d) (map ((!) G) p @ B))"
    using inS by (rule np_getitem_positions)
  have f3: "np_getitem (index A) (IPos (map int (map ((!) G) p @ B)))
          = Inr (map ((!) (index A)) (map ((!) G) p @ B))"
    using inS li by (intro np_getitem_positions) simp
  have mk: "Series ((values A)\<lparr>data := map ((!) d) (map ((!) G) p @ B)\<rparr>)
              (map ((!) (index A)) (map ((!) G) p @ B)) (name A)
          = Inr \<lparr>index = map ((!) (index A)) (map ((!) G) p @ B),
               values = (values A)\<lparr>data := map ((!) d) (map ((!) G) p @ B)\<rparr>,
               name = name A\<rparr>"
    by (simp add: Series_def)
  have "order_series quick A True True
       = and_then (np_getitem d (IPos (map (\<lambda>i. int32 (int i)) (map ((!) G) p @ B))))
           (\<lambda>new_values.
         and_then (np_getitem (index A) (IPos (map (\<lambda>i. int32 (int i)) (map ((!) G) p @ B))))
           (\<lambda>new_index.
         Series ((values A)\<lparr>data := new_values\<rparr>) new_index (name A)))"
    using order_series_positions [of quick A] perm
    unfolding d_def G_def B_def p_def by simp
  also have "\<dots> = Inr \<lparr>index = map ((!) (index A)) (map ((!) G) p @ B),
               values = (values A)\<lparr>data := map ((!) d) (map ((!) G) p @ B)\<rparr>,
               name = name A\<rparr>"
    by (simp only: s32 f2 f3 mk and_then.simps)
  finally show ?thesis .
qed

lemma valid_argsort_last_first: "valid_argsort argsort_last_first"
proof -
  have m: "mset (argsort_last_first xs) = mset [0..<length xs]" for xs :: "'a list"
  proof -
    have z: "map snd (zip xs [0..<length xs]) = [0..<length xs]"
      by (simp add: map_snd_zip)
    have "mset (argsort_last_first xs)
        = image_mset snd (mset (sort_key fst (rev (zip xs [0..<length xs]))))"
      unfolding argsort_last_first_def by (rule mset_map)
    also have "\<dots> = image_mset snd (mset (zip xs [0..<length xs]))"
      by (simp only: mset_sort mset_rev)
    also have "\<dots> = mset (map snd (zip xs [0..<length xs]))"
      by (rule mset_map [symmetric])
    also have "\<dots> = mset [0..<length xs]"
      by (simp only: z)
    finally show ?thesis .
  qed
  have s: "sorted (map ((!) xs) (argsort_last_first xs))" for xs :: "'a list"
  proof -
    have "\<And>p. p \<in> set (sort_key fst (rev (zip xs [0..<length xs]))) \<Longrightarrow> xs ! snd p = fst p"
      using zip_upt_fst [of _ xs] by simp
    then have "map ((!) xs) (argsort_last_first xs)
        = map fst (sort_key fst (rev (zip xs [0..<length xs])))"
      by (simp add: argsort_last_first_def)
    then show ?thesis by simp
  qed
  from m s show ?thesis
    by (simp only: valid_argsort_def) blast
qed

lemma argsort_mergesort_sorted_input:
  assumes "sorted xs"
  shows "argsort_mergesort xs = [0..<length xs]"
proof -
  have "sorted (map fst (zip xs [0..<length xs]))"
    using assms by (simp add: map_fst_zip)
  then have "sort_key fst (zip xs [0..<length xs]) = zip xs [0..<length xs]"
    by (rule sort_key_id_if_sorted)
  then show ?thesis
    by (simp add: argsort_mergesort_def map_snd_zip)
qed

lemma order_series_ramp:
  fixes N :: nat
  defines "A \<equiv> \<lparr>index = map (\<lambda>i. IntL (int i)) [0..<N],
            values = \<lparr>dtype = Integer, data = map (\<lambda>i. Val (int i)) [0..<N]\<rparr>,
            name = None\<rparr>"
  assumes lo: "2 ^ 31 \<le> N"
  shows "\<exists>r. order_series argsort_mergesort A True True = Inr r
        \<and> (\<forall>k < N. data (values r) ! k
              = Val (let i = int32 (int k) in if i < 0 then int N + i else i))"
proof -
  define d where "d = data (values A)"
  define G where "G = filter (\<lambda>i. d ! i \<noteq> NaN) [0..<length d]"
  define B where "B = filter (\<lambda>i. d ! i = NaN) [0..<length d]"
  define g where "g = map (\<lambda>i. the_val (d ! i)) G"
  define p where "p = try_mergesort argsort_mergesort (dtype (values A)) g"
  define S where "S = map (\<lambda>i. int32 (int i)) [0..<N]"
  define pos where "pos = (\<lambda>i. if i < 0 then nat (int N + i) else nat i)"
  have dd: "d = map (\<lambda>i. Val (int i)) [0..<N]" and ld: "length d = N"
    and ia: "index A = map (\<lambda>i. IntL (int i)) [0..<N]" and na: "name A = None"
    and va: "values A = \<lparr>dtype = Integer, data = d\<rparr>"
    by (simp_all add: d_def A_def)
  have G: "G = [0..<N]"
    unfolding G_def ld by (rule filter_True) (simp add: dd)
  have B: "B = []"
    unfolding B_def ld by (simp add: dd filter_empty_conv)
  have g: "g = map int [0..<N]"
    unfolding g_def G by (rule nth_equalityI) (simp_all add: dd)
  have "sorted g"
    unfolding g by (simp add: sorted_map sorted_wrt_iff_nth_less)
  then have p: "p = [0..<N]"
    by (simp add: p_def try_mergesort_def va argsort_mergesort_sorted_input) (simp add: g)
  have perm: "mset (try_mergesort argsort_mergesort (dtype (values A))
                (map (\<lambda>i. the_val (data (values A) ! i))
                  (filter (\<lambda>i. data (values A) ! i \<noteq> NaN) [0..<length (data (values A))])))
            = mset [0..<length (filter (\<lambda>i. data (values A) ! i \<noteq> NaN)
                [0..<length (data (values A))])]"
    using p G by (simp only: p_def g_def G_def d_def) simp
  have Sfull: "map (\<lambda>i. int32 (int i)) (map ((!) G) p @ B) = S"
    by (simp add: G p B S_def map_nth)
  have rng: "- (2 ^ 31) \<le> int32 i \<and> int32 i < 2 ^ 31" for i
    unfolding int32_def
    using pos_mod_bound [of "2 ^ 32" "i + 2 ^ 31"] pos_mod_sign [of "2 ^ 32" "i + 2 ^ 31"]
    by simp
  have inr: "\<forall>i \<in> set S. - int N \<le> i \<and> i < int N"
  proof
    fix i assume "i \<in> set S"
    then obtain k where "i = int32 (int k)" by (auto simp: S_def)
    moreover from lo have "int (2 ^ 31) \<le> int N"
      by (simp only: of_nat_le_iff)
    then have "2 ^ 31 \<le> int N"
      by simp
    ultimately show "- int N \<le> i \<and> i < int N"
      using rng [of "int k"] by arith
  qed
  have gd: "np_getitem d (IPos S) = Inr (map ((!) d) (map pos S))"
    using inr by (simp add: np_getitem_def ld pos_def comp_def)
  have gi: "np_getitem (index A) (IPos S) = Inr (map ((!) (index A)) (map pos S))"
    using inr by (simp add: np_getitem_def ia pos_def comp_def)
  define r where "r = \<lparr>index = map ((!) (index A)) (map pos S),
        values = (values A)\<lparr>data := map ((!) d) (map pos S)\<rparr>, name = name A\<rparr>"
  have mk: "Series ((values A)\<lparr>data := map ((!) d) (map pos S)\<rparr>)
              (map ((!) (index A)) (map pos S)) (name A) = Inr r"
    by (simp add: Series_def r_def)
  have run: "order_series argsort_mergesort A True True = Inr r"
    using order_series_positions [OF perm]
    by (simp only: d_def [symmetric] G_def [symmetric] B_def [symmetric] g_def [symmetric]
        p_def [symmetric] Sfull gd gi mk and_then.simps)
  have "data (values r) ! k = Val (let i = int32 (int k) in if i < 0 then int N + i else i)"
    if k: "k < N" for k
  proof -
    from k have "int32 (int k) \<in> set S"
      by (auto simp: S_def)
    with inr have b: "- int N \<le> int32 (int k) \<and> int32 (int k) < int N"
      by blast
    then have pk: "pos (int32 (int k)) < N"
      by (auto simp: pos_def)
    from k have "data (values r) ! k = d ! pos (int32 (int k))"
      by (simp add: r_def S_def)
    also have "\<dots> = Val (int (pos (int32 (int k))))"
      using pk by (simp add: dd)
    also have "int (pos (int32 (int k)))
        = (let i = int32 (int k) in if i < 0 then int N + i else i)"
      using b by (auto simp: pos_def Let_def)
    finally show ?thesis .
  qed
  with run show ?thesis by blast
qed

lemma val_the_val: "c \<noteq> NaN \<Longrightarrow> Val (the_val c) = c"
  by (cases c) simp_all

lemma get_indexer_absent:
  assumes "\<not> set I \<subseteq> set la"
  shows "None \<in> set (get_indexer la I)"
proof -
  from assms obtain l where l: "l \<in> set I" "l \<notin> set la" by blast
  then have "get_loc la l = None" by (simp add: get_loc_None_iff)
  with l(1) show ?thesis
    by (force simp: get_indexer_def image_iff)
qed

section \<open>Claims\<close>

text \<open>
  C8, as amended. \<^verbatim>\<open>_can_hold_na\<close> is false for a Series of integer kind and true for
  every other kind. A missing-producing alignment of an integer-kind Series (a reindex or
  an outer align that brings in a label the Series does not have) raises
  \<open>UnrepresentableMissing\<close>; reindexing an empty Series gives a floating all-missing one,
  an implicit upcast. \<^verbatim>\<open>fillna\<close> on an integer-kind Series does neither: whatever the
  fill value, the method and the limit, it returns an unchanged copy of the Series, and the
  Series itself when \<^verbatim>\<open>inplace\<close> is set.
\<close>

theorem integer_kind_missing_policy:
  fixes s :: "'v series"
  assumes k: "dtype (values s) = Integer" and w: "wfs s"
  shows "\<not> can_hold_na s
       \<and> (\<forall>t :: 'v series. can_hold_na t = (dtype (values t) \<noteq> Integer))
       \<and> fillna s value method False limit = Inr (s, New s)
       \<and> fillna s value method True limit = Inr (s, Self)
       \<and> (\<forall>I cp. index s \<noteq> [] \<and> \<not> set I \<subseteq> set (index s) \<longrightarrow>
             reindex s (Some I) NaN cp = Inl UnrepresentableMissing)
       \<and> (\<forall>I cp. index s = [] \<and> I \<noteq> [] \<longrightarrow>
             reindex s (Some I) NaN cp = Inr (New (Series_nan I (name s)))
           \<and> dtype (values (Series_nan I (name s) :: 'v series)) = Floating)
       \<and> (\<forall>B cp. \<not> set (index B) \<subseteq> set (index s) \<longrightarrow>
             align s B Outer cp None None None = Inl UnrepresentableMissing)"
proof (intro conjI allI impI)
  show "\<not> can_hold_na s"
    using k by (simp add: can_hold_na_def is_integer_dtype_def)
  show "can_hold_na t = (dtype (values t) \<noteq> Integer)" for t :: "'v series"
    by (simp add: can_hold_na_def is_integer_dtype_def)
  show "fillna s value method False limit = Inr (s, New s)"
    using k w by (simp add: fillna_def can_hold_na_def is_integer_dtype_def copy_wf)
  show "fillna s value method True limit = Inr (s, Self)"
    using k by (simp add: fillna_def can_hold_na_def is_integer_dtype_def)
next
  fix I cp
  assume a: "index s \<noteq> [] \<and> \<not> set I \<subseteq> set (index s)"
  then have "index s \<noteq> I" by auto
  with a k get_indexer_absent [of I "index s"]
  show "reindex s (Some I) NaN cp = Inl UnrepresentableMissing"
    by (simp add: reindex_def reindex_with_def equals_def index_reindex_def take_1d_def
        is_integer_dtype_def)
next
  fix I :: "label list" and cp
  assume a: "index s = [] \<and> I \<noteq> []"
  then show "reindex s (Some I) NaN cp = Inr (New (Series_nan I (name s)))"
    by (auto simp: reindex_def reindex_with_def equals_def)
  show "dtype (values (Series_nan I (name s) :: 'v series)) = Floating"
    by (simp add: Series_nan_def)
next
  fix B :: "'v series" and cp
  assume a: "\<not> set (index B) \<subseteq> set (index s)"
  let ?J = "index_union (index s) (index B)"
  from a have n: "\<not> set ?J \<subseteq> set (index s)"
    by (simp add: index_union_props)
  then have ne: "?J \<noteq> index s" by auto
  from n k have "take_1d (values s) (get_indexer (index s) ?J) NaN = Inl UnrepresentableMissing"
    using get_indexer_absent [of ?J "index s"]
    by (simp add: take_1d_def is_integer_dtype_def)
  with ne show "align s B Outer cp None None None = Inl UnrepresentableMissing"
    by (simp add: align_def index_join_def Let_def reindex_indexer_def)
qed

theorem integer_kind_missing_policy_witness:
  "dtype (values ints123) = Integer \<and> wfs ints123
   \<and> dtype (values ints_empty) = Integer \<and> wfs ints_empty
   \<and> \<not> can_hold_na ints123
   \<and> fillna ints123 (Some (Val 0)) (Some Pad) False None = Inr (ints123, New ints123)
   \<and> fillna ints123 (Some (Val 0)) (Some Pad) True None = Inr (ints123, Self)
   \<and> reindex ints123 (Some [IntL 0, IntL 5]) NaN True = Inl UnrepresentableMissing
   \<and> reindex ints_empty (Some [IntL 0]) NaN True = Inr (New (Series_nan [IntL 0] None))
   \<and> dtype (values (Series_nan [IntL 0] None :: int series)) = Floating
   \<and> align ints123 serA Outer True None None None = Inl UnrepresentableMissing"
proof -
  have k: "dtype (values ints123) = Integer" "dtype (values ints_empty) = Integer"
    by (simp_all add: ints123_def ints_empty_def)
  have w: "wfs ints123" "wfs ints_empty"
    by (simp_all add: ints123_def ints_empty_def wfs_def)
  note T = integer_kind_missing_policy [OF k(1) w(1), of "Some (Val 0)" "Some Pad" None]
  note E = integer_kind_missing_policy [OF k(2) w(2), of "Some (Val 0)" "Some Pad" None]
  have a: "index ints123 \<noteq> [] \<and> \<not> set [IntL 0, IntL 5] \<subseteq> set (index ints123)"
    by (simp add: ints123_def)
  have b: "index ints_empty = [] \<and> [IntL 0] \<noteq> []" "name ints_empty = None"
    by (simp_all add: ints_empty_def)
  have c: "\<not> set (index serA) \<subseteq> set (index ints123)"
    by (simp add: ints123_def serA_def)
  from T have t1: "\<not> can_hold_na ints123"
    and t2: "fillna ints123 (Some (Val 0)) (Some Pad) False None = Inr (ints123, New ints123)"
    and t3: "fillna ints123 (Some (Val 0)) (Some Pad) True None = Inr (ints123, Self)"
    and t4: "\<forall>I cp. index ints123 \<noteq> [] \<and> \<not> set I \<subseteq> set (index ints123) \<longrightarrow>
             reindex ints123 (Some I) NaN cp = Inl UnrepresentableMissing"
    and t5: "\<forall>B cp. \<not> set (index B) \<subseteq> set (index ints123) \<longrightarrow>
             align ints123 B Outer cp None None None = Inl UnrepresentableMissing"
    by blast+
  from E have e1: "\<forall>I cp. index ints_empty = [] \<and> I \<noteq> [] \<longrightarrow>
             reindex ints_empty (Some I) NaN cp = Inr (New (Series_nan I (name ints_empty)))
           \<and> dtype (values (Series_nan I (name ints_empty) :: int series)) = Floating"
    by blast
  from t4 a have r1: "reindex ints123 (Some [IntL 0, IntL 5]) NaN True = Inl UnrepresentableMissing"
    by blast
  from t5 c have r2: "align ints123 serA Outer True None None None = Inl UnrepresentableMissing"
    by blast
  from e1 b have r3: "reindex ints_empty (Some [IntL 0]) NaN True = Inr (New (Series_nan [IntL 0] None))"
    "dtype (values (Series_nan [IntL 0] None :: int series)) = Floating"
    by auto
  from k w t1 t2 t3 r1 r2 r3 show ?thesis by blast
qed

text \<open>
  C8 as stated fails at its own example: \<^verbatim>\<open>fillna\<close> with the NaN sentinel on the
  integer-kind values \<open>[1, 2, 3]\<close> does not raise \<open>UnrepresentableMissing\<close>, and the
  Series it returns is still of integer kind.
\<close>

theorem fillna_integer_kind_counterexample:
  "\<not> (fillna ints123 (Some NaN) (Some Pad) False None = Inl UnrepresentableMissing
       \<or> (\<exists>s' r. fillna ints123 (Some NaN) (Some Pad) False None = Inr (s', r)
                 \<and> dtype (values (deref s' r)) \<noteq> Integer))"
  by (simp add: ints123_def fillna_def can_hold_na_def is_integer_dtype_def copy_def Series_def)

text \<open>
  C4. For the three operator wrappers on a Series operand, for \<^verbatim>\<open>_binop\<close> and for
  \<^verbatim>\<open>combine\<close> with a Series, the result carries the receiver's name when the two names
  are equal and no name otherwise.
\<close>

theorem result_name_rule:
  "(arith_method f A (OSeries B) = Inr (Result r1)
      \<longrightarrow> name r1 = (if name A = name B then name A else None))
 \<and> (comp_method g A (OSeries B) = Inr (Result r2)
      \<longrightarrow> name r2 = (if name A = name B then name A else None))
 \<and> (bool_method h A (OSeries B) = Inr (Result r3)
      \<longrightarrow> name r3 = (if name A = name B then name A else None))
 \<and> (binop A B k fv = Inr r4
      \<longrightarrow> name r4 = (if name A = name B then name A else None))
 \<and> (combine A (CSeries B) f fill = Inr r5
      \<longrightarrow> name r5 = (if name A = name B then name A else None))"
proof (intro conjI impI)
  assume "arith_method f A (OSeries B) = Inr (Result r1)"
  then show "name r1 = (if name A = name B then name A else None)"
    by (auto simp: arith_fast_def arith_join_def and_then_Inr maybe_match_name_def
        split: if_splits prod.splits dest!: Series_fields)
next
  assume "comp_method g A (OSeries B) = Inr (Result r2)"
  then show "name r2 = (if name A = name B then name A else None)"
    by (auto simp: and_then_Inr maybe_match_name_def dest!: Series_fields)
next
  assume "bool_method h A (OSeries B) = Inr (Result r3)"
  then show "name r3 = (if name A = name B then name A else None)"
    by (auto simp: and_then_Inr maybe_match_name_def dest!: Series_fields)
next
  assume "binop A B k fv = Inr r4"
  then obtain this other' res where ops: "binop_operands A B = Inr (this, other')"
    and r4: "Series res (index this) (maybe_match_name A other') = Inr r4"
    by (auto simp: binop_def and_then_Inr)
  from binop_operands_name [OF ops] Series_fields [OF r4]
  show "name r4 = (if name A = name B then name A else None)"
    by (simp add: maybe_match_name_def)
next
  assume "combine A (CSeries B) f fill = Inr r5"
  then show "name r5 = (if name A = name B then name A else None)"
    by (auto simp: Let_def and_then_Inr maybe_match_name_def dest!: Series_fields)
qed

text \<open>
  The rule at work on two Series that are both named \<open>p\<close>: each of the five paths
  returns a Series named \<open>p\<close>.
\<close>

theorem result_name_rule_witness:
  "arith_method op_add (serA\<lparr>name := Some ''p''\<rparr>) (OSeries (serB\<lparr>name := Some ''p''\<rparr>))
     = Inr (Result \<lparr>index = [StrL ''x'', StrL ''y''],
                     values = \<lparr>dtype = Floating, data = [NaN, NaN]\<rparr>, name = Some ''p''\<rparr>)
   \<and> comp_method op_ne (serA\<lparr>name := Some ''p''\<rparr>) (OSeries (serB\<lparr>name := Some ''p''\<rparr>))
     = Inr (Result \<lparr>index = [StrL ''x'', StrL ''y''],
                     values = \<lparr>dtype = Boolean, data = [Val True, Val True]\<rparr>, name = Some ''p''\<rparr>)
   \<and> bool_method op_ne (serA\<lparr>name := Some ''p''\<rparr>) (OSeries (serB\<lparr>name := Some ''p''\<rparr>))
     = Inr (Result \<lparr>index = [StrL ''x'', StrL ''y''],
                     values = \<lparr>dtype = Boolean, data = [Val True, Val True]\<rparr>, name = Some ''p''\<rparr>)
   \<and> binop (serA\<lparr>name := Some ''p''\<rparr>) (serB\<lparr>name := Some ''p''\<rparr>) op_add (Some (Val 0))
     = Inr \<lparr>index = [StrL ''x'', StrL ''y''],
             values = \<lparr>dtype = Floating, data = [Val 1, Val 2]\<rparr>, name = Some ''p''\<rparr>
   \<and> combine (serA\<lparr>name := Some ''p''\<rparr>) (CSeries (serB\<lparr>name := Some ''p''\<rparr>)) op_add (Val 0)
     = Inr \<lparr>index = [StrL ''x'', StrL ''y''],
             values = \<lparr>dtype = Floating, data = [NaN, NaN]\<rparr>, name = Some ''p''\<rparr>
   \<and> name (serA\<lparr>name := Some ''p''\<rparr>) = name (serB\<lparr>name := Some ''p''\<rparr>)"
proof -
  let ?A = "serA\<lparr>name := Some ''p''\<rparr>" and ?B = "serB\<lparr>name := Some ''p''\<rparr>"
  have e1: "arith_method op_add ?A (OSeries ?B)
     = Inr (Result \<lparr>index = [StrL ''x'', StrL ''y''],
                     values = \<lparr>dtype = Floating, data = [NaN, NaN]\<rparr>, name = name ?A\<rparr>)"
    by (simp add: serA_def serB_def op_add_def arith_fast_def equals_def np_op_def Series_def
        maybe_match_name_def result_type_def)
  have e2: "comp_method op_ne ?A (OSeries ?B)
     = Inr (Result \<lparr>index = [StrL ''x'', StrL ''y''],
                     values = \<lparr>dtype = Boolean, data = [Val True, Val True]\<rparr>, name = name ?A\<rparr>)"
    by (simp add: serA_def serB_def op_ne_def np_op_def Series_def maybe_match_name_def)
  have e3: "bool_method op_ne ?A (OSeries ?B)
     = Inr (Result \<lparr>index = [StrL ''x'', StrL ''y''],
                     values = \<lparr>dtype = Boolean, data = [Val True, Val True]\<rparr>, name = name ?A\<rparr>)"
    by (simp add: serA_def serB_def op_ne_def np_op_def Series_def maybe_match_name_def)
  have e4: "binop ?A ?B op_add (Some (Val 0))
     = Inr \<lparr>index = [StrL ''x'', StrL ''y''],
             values = \<lparr>dtype = Floating, data = [Val 1, Val 2]\<rparr>, name = name ?A\<rparr>"
    by (simp add: serA_def serB_def op_add_def binop_def binop_operands_def equals_def
        fill_one_sided_def isnull_def mask_xor_def mask_and_def putmask_def np_op_def Series_def
        maybe_match_name_def result_type_def)
  have e5: "combine ?A (CSeries ?B) op_add (Val 0)
     = Inr \<lparr>index = [StrL ''x'', StrL ''y''],
             values = \<lparr>dtype = Floating, data = [NaN, NaN]\<rparr>, name = name ?A\<rparr>"
    by (simp add: serA_def serB_def op_add_def index_union_def get_def get_value_def matches_def
        combine_cell_def Series_def maybe_match_name_def)
  have n: "name ?A = Some ''p''" "name ?A = name ?B"
    by simp_all
  from result_name_rule [of op_add ?A ?B _ op_ne _ op_ne _ op_add "Some (Val 0)" _ "Val 0" _]
    e1 e2 e3 e4 e5 n
  show ?thesis by simp
qed

text \<open>
  C7. Reindexing a Series to an index equal in content to its own returns the Series
  itself when \<^verbatim>\<open>copy\<close> is off, and a new Series equal to it (same labels, values and
  name) when \<^verbatim>\<open>copy\<close> is on. No join is made: the result is the same whatever
  \<^verbatim>\<open>Index.reindex\<close> and \<^verbatim>\<open>take_1d\<close> would compute or raise (\<open>ixr\<close> and \<open>tk\<close> are
  arbitrary), and whatever the fill value.
\<close>

theorem reindex_equal_index_short_circuit:
  assumes "equals (index A) I" and "wfs A"
  shows "reindex_with ixr tk A (Some I) fill False = Inr Self
       \<and> reindex_with ixr tk A (Some I) fill True = Inr (New A)
       \<and> reindex A (Some I) fill False = Inr Self
       \<and> reindex A (Some I) fill True = Inr (New A)"
  using assms by (auto simp: reindex_with_def reindex_def copy_wf equals_def)

theorem reindex_equal_index_short_circuit_witness:
  "equals (index serA) [StrL ''x'', StrL ''y'']
   \<and> wfs serA
   \<and> reindex_with (\<lambda>la lb. Inl Exception) (\<lambda>arr ix fv. Inl Exception) serA
        (Some [StrL ''x'', StrL ''y'']) NaN False = Inr Self
   \<and> reindex_with (\<lambda>la lb. Inl Exception) (\<lambda>arr ix fv. Inl Exception) serA
        (Some [StrL ''x'', StrL ''y'']) NaN True = Inr (New serA)
   \<and> reindex serA (Some [StrL ''x'', StrL ''y'']) NaN False = Inr Self
   \<and> reindex serA (Some [StrL ''x'', StrL ''y'']) NaN True = Inr (New serA)"
proof -
  have e: "equals (index serA) [StrL ''x'', StrL ''y'']"
    by (simp add: serA_def equals_def)
  have w: "wfs serA"
    by (simp add: serA_def wfs_def)
  from reindex_equal_index_short_circuit
         [OF e w, of "\<lambda>la lb. Inl Exception" "\<lambda>arr ix fv. Inl Exception" NaN]
  show ?thesis using e w by blast
qed

text \<open>
  The fill rule of \<^verbatim>\<open>Series._binop\<close> for any operator. \<^verbatim>\<open>A._binop(B, f, fill_value=v)\<close>
  with a non-null \<open>v\<close> works on the outer-aligned pair: \<open>A\<close> and \<open>B\<close> themselves
  when their indexes are equal, otherwise two Series on the union of the labels that hold
  at each label what \<open>A\<close> and \<open>B\<close> hold there (missing where the label is absent). At
  every position where exactly one side is missing \<open>v\<close> stands in for the missing side
  before \<open>f\<close> is applied; where both sides are missing \<open>f\<close> meets two missing
  operands, so the position is missing in the result for every \<open>f\<close> that gives the
  missing value on two missing operands, as the four operators of \<^verbatim>\<open>_flex_method\<close>
  do. The call returns whenever both Series can hold missing values and \<open>f\<close> does not
  raise.
\<close>

theorem binop_fill_rule:
  assumes wA: "wfs A" and wB: "wfs B"
  shows "(\<forall>r. binop A B f (Some (Val v)) = Inr r \<longrightarrow>
          (\<exists>this other'.
             binop_operands A B = Inr (this, other')
           \<and> (index A = index B \<longrightarrow> this = A \<and> other' = B)
           \<and> (index A \<noteq> index B \<longrightarrow>
                index this = index_union (index A) (index B)
              \<and> index other' = index_union (index A) (index B)
              \<and> (\<forall>i < length (index this).
                    data (values this) ! i = lookup A (index this ! i)
                  \<and> data (values other') ! i = lookup B (index this ! i)))
           \<and> index r = index this
           \<and> length (data (values r)) = length (index this)
           \<and> (\<forall>i < length (index this).
                 fn f (if data (values this) ! i = NaN \<and> data (values other') ! i \<noteq> NaN
                       then Val v else data (values this) ! i)
                      (if data (values other') ! i = NaN \<and> data (values this) ! i \<noteq> NaN
                       then Val v else data (values other') ! i)
                   = Inr (data (values r) ! i))
           \<and> (fn f NaN NaN = Inr NaN \<longrightarrow>
                (\<forall>i < length (index this).
                   data (values this) ! i = NaN \<and> data (values other') ! i = NaN
                   \<longrightarrow> data (values r) ! i = NaN))))
       \<and> (can_hold_na A \<and> can_hold_na B \<and> (\<forall>a b. \<exists>c. fn f a b = Inr c)
            \<longrightarrow> (\<exists>r. binop A B f (Some (Val v)) = Inr r))"
proof (intro conjI allI impI)
  fix r
  assume run: "binop A B f (Some (Val v)) = Inr r"
  then obtain this other' tv ov res where
    ops: "binop_operands A B = Inr (this, other')"
    and fl: "fill_one_sided (values this) (values other') (Some (Val v)) = Inr (tv, ov)"
    and ap: "np_op f tv ov = Inr res"
    and mk: "Series res (index this) (maybe_match_name A other') = Inr r"
    by (auto simp: binop_def and_then_Inr)
  have eq: "this = A \<and> other' = B" if "index A = index B"
    using ops binop_operands_equal [OF that] by simp
  from binop_operands_wf [OF wA wB ops] have wt: "wfs this"
    by simp
  note F = fill_one_sided_Some [OF fl]
  note P = np_op_Inr [OF ap]
  from Series_fields [OF mk] have ir: "index r = index this" and vr: "values r = res"
    by simp_all
  from wf_Series [OF mk] ir have lr: "length (data (values r)) = length (index this)"
    by (simp add: wfs_def)
  have lt: "length (data (values this)) = length (index this)"
    using wt by (simp add: wfs_def)
  have cell: "fn f (if data (values this) ! i = NaN \<and> data (values other') ! i \<noteq> NaN
                     then Val v else data (values this) ! i)
                    (if data (values other') ! i = NaN \<and> data (values this) ! i \<noteq> NaN
                     then Val v else data (values other') ! i)
                 = Inr (data (values r) ! i)" if i: "i < length (index this)" for i
  proof -
    from i lt have i1: "i < length (data (values this))" by simp
    with F(2) have i2: "i < length (data tv)" by simp
    from P(4) [OF i2] F(6) [OF i1] vr show ?thesis by simp
  qed
  have both: "data (values r) ! i = NaN"
    if "fn f NaN NaN = Inr NaN" "i < length (index this)"
       "data (values this) ! i = NaN" "data (values other') ! i = NaN" for i
    using cell [OF that(2)] that by simp
  have al: "index this = index_union (index A) (index B)
            \<and> index other' = index_union (index A) (index B)
            \<and> (\<forall>i < length (index this).
                  data (values this) ! i = lookup A (index this ! i)
                \<and> data (values other') ! i = lookup B (index this ! i))" if ne: "index A \<noteq> index B"
    using binop_operands_aligned(1,2,5) [OF wA wB ne ops] by simp
  from ops eq al ir lr cell both
  show "\<exists>this other'.
             binop_operands A B = Inr (this, other')
           \<and> (index A = index B \<longrightarrow> this = A \<and> other' = B)
           \<and> (index A \<noteq> index B \<longrightarrow>
                index this = index_union (index A) (index B)
              \<and> index other' = index_union (index A) (index B)
              \<and> (\<forall>i < length (index this).
                    data (values this) ! i = lookup A (index this ! i)
                  \<and> data (values other') ! i = lookup B (index this ! i)))
           \<and> index r = index this
           \<and> length (data (values r)) = length (index this)
           \<and> (\<forall>i < length (index this).
                 fn f (if data (values this) ! i = NaN \<and> data (values other') ! i \<noteq> NaN
                       then Val v else data (values this) ! i)
                      (if data (values other') ! i = NaN \<and> data (values this) ! i \<noteq> NaN
                       then Val v else data (values other') ! i)
                   = Inr (data (values r) ! i))
           \<and> (fn f NaN NaN = Inr NaN \<longrightarrow>
                (\<forall>i < length (index this).
                   data (values this) ! i = NaN \<and> data (values other') ! i = NaN
                   \<longrightarrow> data (values r) ! i = NaN))"
    by blast
next
  assume "can_hold_na A \<and> can_hold_na B \<and> (\<forall>a b. \<exists>c. fn f a b = Inr c)"
  then show "\<exists>r. binop A B f (Some (Val v)) = Inr r"
    using binop_returns [OF wA wB, of f "Some (Val v)"] by blast
qed

text \<open>
  The scenario of the specification, \<^verbatim>\<open>A = {'x': 1, 'y': nan}\<close>,
  \<^verbatim>\<open>B = {'x': nan, 'y': 2}\<close>, \<^verbatim>\<open>add\<close> and fill value 0, gives \<^verbatim>\<open>{'x': 1, 'y': 2}\<close>;
  on the differently labelled \<open>serC\<close> the label \<open>z\<close>, missing on both sides, stays
  missing.
\<close>

theorem binop_fill_rule_witness:
  "wfs serA \<and> wfs serB \<and> wfs serC
   \<and> binop serA serB op_add (Some (Val 0))
     = Inr \<lparr>index = [StrL ''x'', StrL ''y''],
             values = \<lparr>dtype = Floating, data = [Val 1, Val 2]\<rparr>, name = None\<rparr>
   \<and> binop serA serC op_add (Some (Val 0))
     = Inr \<lparr>index = [StrL ''x'', StrL ''y'', StrL ''z''],
             values = \<lparr>dtype = Floating, data = [Val 1, Val 10, NaN]\<rparr>, name = None\<rparr>
   \<and> (\<exists>this other'. binop_operands serA serC = Inr (this, other')
         \<and> index this = [StrL ''x'', StrL ''y'', StrL ''z'']
         \<and> data (values this) ! 2 = NaN \<and> data (values other') ! 2 = NaN)"
proof -
  have w: "wfs serA" "wfs serB" "wfs serC"
    by (simp_all add: serA_def serB_def serC_def wfs_def)
  have e1: "binop serA serB op_add (Some (Val 0))
     = Inr \<lparr>index = [StrL ''x'', StrL ''y''],
             values = \<lparr>dtype = Floating, data = [Val 1, Val 2]\<rparr>, name = None\<rparr>"
    by (simp add: serA_def serB_def op_add_def binop_def binop_operands_def equals_def
        fill_one_sided_def isnull_def mask_xor_def mask_and_def putmask_def np_op_def Series_def
        maybe_match_name_def result_type_def)
  have e2: "binop serA serC op_add (Some (Val 0))
     = Inr \<lparr>index = [StrL ''x'', StrL ''y'', StrL ''z''],
             values = \<lparr>dtype = Floating, data = [Val 1, Val 10, NaN]\<rparr>, name = None\<rparr>"
    by (simp add: serA_def serC_def op_add_def binop_def binop_operands_def equals_def align_def
        index_join_def index_union_def reindex_indexer_def get_indexer_def take_1d_def
        is_integer_dtype_def fill_one_sided_def isnull_def mask_xor_def mask_and_def putmask_def
        np_op_def Series_def maybe_match_name_def result_type_def)
  have u: "index_union (index serA) (index serC) = [StrL ''x'', StrL ''y'', StrL ''z'']"
    by (simp add: serA_def serC_def index_union_def)
  have ne: "index serA \<noteq> index serC"
    by (simp add: serA_def serC_def)
  have l: "lookup serA (StrL ''z'') = NaN" "lookup serC (StrL ''z'') = NaN"
    by (simp_all add: lookup_def serA_def serC_def)
  note T = conjunct1 [OF binop_fill_rule [OF w(1) w(3), of op_add 0], rule_format, OF e2]
  from T obtain this other' where ops: "binop_operands serA serC = Inr (this, other')"
    and al: "index serA \<noteq> index serC \<longrightarrow>
                index this = index_union (index serA) (index serC)
              \<and> index other' = index_union (index serA) (index serC)
              \<and> (\<forall>i < length (index this).
                    data (values this) ! i = lookup serA (index this ! i)
                  \<and> data (values other') ! i = lookup serC (index this ! i))"
    by blast
  from al ne u have it: "index this = [StrL ''x'', StrL ''y'', StrL ''z'']"
    and cells: "\<forall>i < length (index this).
                    data (values this) ! i = lookup serA (index this ! i)
                  \<and> data (values other') ! i = lookup serC (index this ! i)"
    by simp_all
  from cells it l have "data (values this) ! 2 = NaN \<and> data (values other') ! 2 = NaN"
    by simp
  with ops it
  have "\<exists>this other'. binop_operands serA serC = Inr (this, other')
         \<and> index this = [StrL ''x'', StrL ''y'', StrL ''z'']
         \<and> data (values this) ! 2 = NaN \<and> data (values other') ! 2 = NaN"
    by blast
  with w e1 e2 show ?thesis by blast
qed

text \<open>
  C1. "If both Series are NA in a location, the result will be NA regardless of the passed
  fill value", say the docstrings of \<^verbatim>\<open>_binop\<close> and of \<^verbatim>\<open>_flex_method\<close>. The code
  hands such a position to the operator untouched and keeps what the operator returns:
  with \<^verbatim>\<open>operator.ne\<close> the position missing on both sides holds \<^verbatim>\<open>True\<close> in the
  result.
\<close>

theorem binop_both_missing_counterexample:
  "data (values serN) ! 0 = NaN
   \<and> (\<exists>r. binop serN serN op_ne (Some (Val 0)) = Inr r \<and> data (values r) ! 0 \<noteq> NaN)"
  by (simp add: serN_def op_ne_def binop_def binop_operands_def equals_def fill_one_sided_def
      isnull_def mask_xor_def mask_and_def putmask_def np_op_def Series_def)







text \<open>
  C6. \<^verbatim>\<open>A.order(na_last=True, ascending=True)\<close> on a Series of at most \<open>2\<^sup>3\<^sup>1\<close>
  elements returns a new Series whose label-value pairs are a permutation of those of
  \<open>A\<close>: the non-missing values first, in ascending order, then the missing ones. When
  the mergesort runs (every element kind but object, where the method falls back on
  numpy's default sort) the order is stable: the pairs of any one value, and the missing
  ones, keep their original relative order.
\<close>

theorem order_sorts_stably:
  fixes A :: "'v::linorder series" and quick :: "'v list \<Rightarrow> nat list"
  assumes w: "wfs A" and n: "length (index A) \<le> 2 ^ 31"
    and q: "dtype (values A) = Object \<longrightarrow> valid_argsort quick"
  shows "\<exists>r. order_series quick A True True = Inr r
       \<and> name r = name A
       \<and> wfs r
       \<and> mset (zip (index r) (data (values r))) = mset (zip (index A) (data (values A)))
       \<and> data (values r)
           = map Val (sort (map the_val (filter (\<lambda>c. c \<noteq> NaN) (data (values A)))))
             @ replicate (length (filter (\<lambda>c. c = NaN) (data (values A)))) NaN
       \<and> (dtype (values A) \<noteq> Object \<longrightarrow>
            (\<forall>c. filter (\<lambda>kv. snd kv = c) (zip (index r) (data (values r)))
               = filter (\<lambda>kv. snd kv = c) (zip (index A) (data (values A)))))"
proof -
  define d where "d = data (values A)"
  define ix where "ix = index A"
  define G where "G = filter (\<lambda>i. d ! i \<noteq> NaN) [0..<length d]"
  define B where "B = filter (\<lambda>i. d ! i = NaN) [0..<length d]"
  define g where "g = map (\<lambda>i. the_val (d ! i)) G"
  define p where "p = try_mergesort quick (dtype (values A)) g"
  define S where "S = map ((!) G) p @ B"
  define P where "P = (\<lambda>i. (ix ! i, d ! i))"
  define r where "r = \<lparr>index = map ((!) ix) S, values = (values A)\<lparr>data := map ((!) d) S\<rparr>,
                        name = name A\<rparr>"
  from w have li: "length ix = length d"
    by (simp add: wfs_def d_def ix_def)
  have lg: "length g = length G"
    by (simp add: g_def)
  have va: "valid_argsort (try_mergesort quick (dtype (values A)))"
    using q valid_argsort_mergesort
    by (cases "dtype (values A) = Object") (simp_all add: try_mergesort_def valid_argsort_def)
  from va have perm: "mset p = mset [0..<length G]" and srt: "sorted (map ((!) g) p)"
    by (simp_all add: valid_argsort_def p_def lg [symmetric])
  have run: "order_series quick A True True = Inr r"
    using order_series_result [OF w n, of quick] perm
    unfolding r_def S_def p_def g_def G_def B_def d_def ix_def by simp
  note PP = perm_positions [OF perm]
  have dG: "map ((!) d) G = filter (\<lambda>c. c \<noteq> NaN) d"
    unfolding G_def by (rule map_nth_filter)
  have dB: "map ((!) d) B = filter (\<lambda>c. c = NaN) d"
    unfolding B_def by (rule map_nth_filter)
  have gv: "map Val g = map ((!) d) G"
    by (simp add: g_def G_def val_the_val)
  have gj: "d ! (G ! j) = Val (g ! j)" if "j < length G" for j
  proof -
    from that have "map Val g ! j = map ((!) d) G ! j" by (simp only: gv)
    with that lg show ?thesis by simp
  qed
  have g_filter: "g = map the_val (filter (\<lambda>c. c \<noteq> NaN) d)"
    by (simp add: g_def dG [symmetric])
  \<comment> \<open>the values\<close>
  have good_part: "map ((!) d) (map ((!) G) p) = map Val (map ((!) g) p)"
    using PP(2) gj by simp
  have mg: "mset (map ((!) g) p) = mset g"
    using perm lg by (intro perm_map_nth) simp
  have sorted_g: "map ((!) g) p = sort g"
    using properties_for_sort [OF mg srt] by simp
  have bad_part: "map ((!) d) B = replicate (length (filter (\<lambda>c. c = NaN) d)) NaN"
  proof -
    have "\<forall>c \<in> set (filter (\<lambda>c. c = NaN) d). c = NaN" by simp
    then have "filter (\<lambda>c. c = NaN) d = replicate (length (filter (\<lambda>c. c = NaN) d)) NaN"
      by (intro replicate_eqI) simp_all
    with dB show ?thesis by simp
  qed
  have vals: "data (values r) = map Val (sort (map the_val (filter (\<lambda>c. c \<noteq> NaN) d)))
             @ replicate (length (filter (\<lambda>c. c = NaN) d)) NaN"
  proof -
    have "data (values r) = map ((!) d) (map ((!) G) p) @ map ((!) d) B"
      by (simp add: r_def S_def)
    also have "\<dots> = map Val (sort g) @ replicate (length (filter (\<lambda>c. c = NaN) d)) NaN"
      by (simp only: good_part sorted_g bad_part)
    finally show ?thesis
      by (simp only: g_filter)
  qed
  \<comment> \<open>the pairs\<close>
  have zr: "zip (index r) (data (values r)) = map P S"
    by (simp add: r_def P_def zip_map_map zip_same_conv_map comp_def)
  have za: "zip ix d = map P [0..<length d]"
    using zip_as_map [OF li] li by (simp add: P_def)
  have "mset (map ((!) G) p) = mset G"
    using perm by (rule perm_map_nth)
  moreover have "mset G + mset B = mset [0..<length d]"
    using good_bad_partition [of "\<lambda>i. d ! i \<noteq> NaN" "[0..<length d]"]
    by (simp add: G_def B_def)
  ultimately have mS: "mset S = mset [0..<length d]"
    by (simp add: S_def)
  have pairs: "mset (zip (index r) (data (values r))) = mset (zip ix d)"
  proof -
    have "mset (map P S) = image_mset P (mset S)" by (rule mset_map)
    also have "\<dots> = image_mset P (mset [0..<length d])" by (simp only: mS)
    also have "\<dots> = mset (map P [0..<length d])" by (rule mset_map [symmetric])
    finally show ?thesis by (simp only: zr za)
  qed
  have wr: "wfs r"
    by (simp add: r_def wfs_def)
  \<comment> \<open>stability\<close>
  have stable: "filter (\<lambda>kv. snd kv = c) (zip (index r) (data (values r)))
               = filter (\<lambda>kv. snd kv = c) (zip ix d)" if no: "dtype (values A) \<noteq> Object" for c
  proof -
    from no have pm: "p = map snd (sort_key fst (zip g [0..<length g]))"
      by (simp add: p_def try_mergesort_def argsort_mergesort_def)
    have lhs: "filter (\<lambda>kv. snd kv = c) (map P S) = map P (filter (\<lambda>i. d ! i = c) S)"
      by (simp add: filter_map comp_def P_def)
    have rhs: "filter (\<lambda>kv. snd kv = c) (map P [0..<length d])
             = map P (filter (\<lambda>i. d ! i = c) [0..<length d])"
      by (simp add: filter_map comp_def P_def)
    have key: "filter (\<lambda>i. d ! i = c) S = filter (\<lambda>i. d ! i = c) [0..<length d]"
    proof (cases c)
      case NaN
      have "filter (\<lambda>i. d ! i = NaN) (map ((!) G) p) = []"
      proof -
        have "\<forall>i \<in> set (map ((!) G) p). d ! i \<noteq> NaN"
          using PP(2) gj by auto
        then show ?thesis by (simp add: filter_empty_conv)
      qed
      moreover have "filter (\<lambda>i. d ! i = NaN) B = B"
        by (simp add: B_def)
      ultimately show ?thesis using NaN by (simp add: S_def B_def)
    next
      case (Val v)
      let ?sel = "filter (\<lambda>j. g ! j = v) [0..<length g]"
      have bad0: "filter (\<lambda>i. d ! i = Val v) B = []"
        by (simp add: B_def filter_empty_conv)
      have "filter (\<lambda>i. d ! i = Val v) (map ((!) G) p)
          = map (\<lambda>kv. G ! snd kv) (filter (\<lambda>kv. d ! (G ! snd kv) = Val v)
              (sort_key fst (zip g [0..<length g])))"
        by (simp add: pm filter_map comp_def)
      also have "filter (\<lambda>kv. d ! (G ! snd kv) = Val v) (sort_key fst (zip g [0..<length g]))
          = filter (\<lambda>kv. fst kv = v) (sort_key fst (zip g [0..<length g]))"
      proof (rule filter_cong [OF refl])
        fix kv assume "kv \<in> set (sort_key fst (zip g [0..<length g]))"
        then have m: "kv \<in> set (zip g [0..<length g])" by simp
        then have "snd kv < length g" by (auto simp: in_set_zip)
        with gj lg zip_upt_fst [OF m] show "(d ! (G ! snd kv) = Val v) = (fst kv = v)"
          by simp
      qed
      also have "\<dots> = filter (\<lambda>kv. fst kv = v) (zip g [0..<length g])"
        by (rule sort_key_stable)
      also have "zip g [0..<length g] = map (\<lambda>j. (g ! j, j)) [0..<length g]"
        by (intro nth_equalityI) simp_all
      also have "filter (\<lambda>kv. fst kv = v) (map (\<lambda>j. (g ! j, j)) [0..<length g])
          = map (\<lambda>j. (g ! j, j)) ?sel"
        by (simp add: filter_map comp_def)
      finally have good: "filter (\<lambda>i. d ! i = Val v) (map ((!) G) p) = map ((!) G) ?sel"
        by (simp add: comp_def)
      have "filter (\<lambda>i. d ! i = Val v) [0..<length d] = filter (\<lambda>i. d ! i = Val v) G"
        by (auto simp: G_def intro: filter_cong)
      also have "G = map ((!) G) [0..<length G]"
        by (simp add: map_nth)
      also have "filter (\<lambda>i. d ! i = Val v) (map ((!) G) [0..<length G])
          = map ((!) G) (filter (\<lambda>j. d ! (G ! j) = Val v) [0..<length G])"
        by (simp add: filter_map comp_def)
      also have "filter (\<lambda>j. d ! (G ! j) = Val v) [0..<length G] = ?sel"
        using gj lg by (auto intro: filter_cong)
      finally have "filter (\<lambda>i. d ! i = Val v) [0..<length d] = map ((!) G) ?sel" .
      with good bad0 Val show ?thesis by (simp add: S_def)
    qed
    from lhs rhs key zr za show ?thesis by simp
  qed
  from run wr pairs vals stable
  show ?thesis
    unfolding d_def ix_def by (intro exI [of _ r]) (simp add: r_def)
qed

text \<open>
  \<^verbatim>\<open>Series({'a': 3, 'b': 1, 'c': 2}).order()\<close> has labels \<open>[b, c, a]\<close> and values
  \<open>[1, 2, 3]\<close>; in \<open>ties\<close> the two labels of the value 2 stay in the order \<open>a, c\<close>.
\<close>

theorem order_sorts_stably_witness:
  "wfs abc \<and> wfs ties \<and> valid_argsort (argsort_mergesort :: int list \<Rightarrow> nat list)
   \<and> dtype (values ties) \<noteq> Object
   \<and> order_series argsort_mergesort abc True True
     = Inr \<lparr>index = [StrL ''b'', StrL ''c'', StrL ''a''],
             values = \<lparr>dtype = Integer, data = [Val 1, Val 2, Val 3]\<rparr>, name = None\<rparr>
   \<and> order_series argsort_mergesort ties True True
     = Inr \<lparr>index = [StrL ''b'', StrL ''a'', StrL ''c'', StrL ''d''],
             values = \<lparr>dtype = Floating, data = [Val 1, Val 2, Val 2, NaN]\<rparr>, name = None\<rparr>
   \<and> filter (\<lambda>kv. snd kv = Val 2)
        (zip [StrL ''b'', StrL ''a'', StrL ''c'', StrL ''d''] [Val 1, Val 2, Val 2, NaN])
     = filter (\<lambda>kv. snd kv = Val 2) (zip (index ties) (data (values ties)))"
proof -
  have w: "wfs abc" "wfs ties"
    by (simp_all add: abc_def ties_def wfs_def)
  have k: "dtype (values ties) \<noteq> Object"
    by (simp add: ties_def)
  have n: "length (index ties) \<le> 2 ^ 31"
    by (simp add: ties_def)
  have e1: "order_series argsort_mergesort abc True True
     = Inr \<lparr>index = [StrL ''b'', StrL ''c'', StrL ''a''],
             values = \<lparr>dtype = Integer, data = [Val 1, Val 2, Val 3]\<rparr>, name = None\<rparr>"
    by code_simp
  have e2: "order_series argsort_mergesort ties True True
     = Inr \<lparr>index = [StrL ''b'', StrL ''a'', StrL ''c'', StrL ''d''],
             values = \<lparr>dtype = Floating, data = [Val 1, Val 2, Val 2, NaN]\<rparr>, name = None\<rparr>"
    by code_simp
  from order_sorts_stably [OF w(2) n, of argsort_mergesort] valid_argsort_mergesort
  obtain r where r: "order_series argsort_mergesort ties True True = Inr r"
    and st: "dtype (values ties) \<noteq> Object \<longrightarrow>
            (\<forall>c. filter (\<lambda>kv. snd kv = c) (zip (index r) (data (values r)))
               = filter (\<lambda>kv. snd kv = c) (zip (index ties) (data (values ties))))"
    by blast
  from st k have "filter (\<lambda>kv. snd kv = Val 2) (zip (index r) (data (values r)))
     = filter (\<lambda>kv. snd kv = Val 2) (zip (index ties) (data (values ties)))"
    by blast
  moreover from r e2 have "r = \<lparr>index = [StrL ''b'', StrL ''a'', StrL ''c'', StrL ''d''],
             values = \<lparr>dtype = Floating, data = [Val 1, Val 2, Val 2, NaN]\<rparr>, name = None\<rparr>"
    by simp
  ultimately have s: "filter (\<lambda>kv. snd kv = Val 2)
        (zip [StrL ''b'', StrL ''a'', StrL ''c'', StrL ''d''] [Val 1, Val 2, Val 2, NaN])
     = filter (\<lambda>kv. snd kv = Val 2) (zip (index ties) (data (values ties)))"
    by simp
  from w k e1 e2 s valid_argsort_mergesort show ?thesis
    by blast
qed

text \<open>
  Both limits are met. An object buffer is sorted by numpy's default sort: with an argsort
  that lists equal values from the last to the first, the tie of \<open>ties_object\<close> comes
  back as \<open>c, a\<close>. And in a Series of \<open>2\<^sup>3\<^sup>1 + 1\<close> elements the position \<open>2\<^sup>3\<^sup>1\<close> is
  stored as \<open>- 2\<^sup>3\<^sup>1\<close>, which counts from the end: the last element of the result is
  the value 1 again, after \<open>2\<^sup>3\<^sup>1 - 1\<close>.
\<close>

theorem order_unstable_counterexample:
  "valid_argsort (argsort_last_first :: int list \<Rightarrow> nat list)
   \<and> wfs ties_object
   \<and> order_series argsort_last_first ties_object True True
     = Inr \<lparr>index = [StrL ''b'', StrL ''c'', StrL ''a'', StrL ''d''],
             values = \<lparr>dtype = Object, data = [Val 1, Val 2, Val 2, NaN]\<rparr>, name = None\<rparr>
   \<and> filter (\<lambda>kv. snd kv = Val 2)
        (zip [StrL ''b'', StrL ''c'', StrL ''a'', StrL ''d''] [Val 1, Val 2, Val 2, NaN])
     \<noteq> filter (\<lambda>kv. snd kv = Val 2) (zip (index ties_object) (data (values ties_object)))
   \<and> wfs long_ramp
   \<and> (\<exists>r. order_series argsort_mergesort long_ramp True True = Inr r
         \<and> data (values r) ! (2 ^ 31 - 1) = Val (2 ^ 31 - 1)
         \<and> data (values r) ! (2 ^ 31) = Val 1)"
proof -
  have w: "wfs ties_object"
    by (simp add: ties_object_def wfs_def)
  have e: "order_series argsort_last_first ties_object True True
     = Inr \<lparr>index = [StrL ''b'', StrL ''c'', StrL ''a'', StrL ''d''],
             values = \<lparr>dtype = Object, data = [Val 1, Val 2, Val 2, NaN]\<rparr>, name = None\<rparr>"
    by code_simp
  have f: "filter (\<lambda>kv. snd kv = Val 2)
        (zip [StrL ''b'', StrL ''c'', StrL ''a'', StrL ''d''] [Val 1, Val (2::int), Val 2, NaN])
     \<noteq> filter (\<lambda>kv. snd kv = Val 2) (zip (index ties_object) (data (values ties_object)))"
    by (simp add: ties_object_def)
  have wl: "wfs long_ramp"
    by (simp add: long_ramp_def wfs_def)
  have lo: "(2::nat) ^ 31 \<le> 2 ^ 31 + 1"
    by simp
  from order_series_ramp [OF lo]
  obtain r where r: "order_series argsort_mergesort long_ramp True True = Inr r"
    and v: "\<forall>k < 2 ^ 31 + 1. data (values r) ! k
              = Val (let i = int32 (int k) in if i < 0 then int (2 ^ 31 + 1) + i else i)"
    unfolding long_ramp_def by blast
  have a: "data (values r) ! (2 ^ 31 - 1) = Val (2 ^ 31 - 1)"
    using v [rule_format, of "2 ^ 31 - 1"] by (simp add: int32_def)
  have b: "data (values r) ! (2 ^ 31) = Val 1"
    using v [rule_format, of "2 ^ 31"] by (simp add: int32_def)
  from valid_argsort_last_first w e f wl r a b show ?thesis
    by blast
qed

end
